theory Spec2Isabelle
  imports Complex_Main "HOL-Library.Word"
begin

unbundle bit_operations_syntax

section \<open>Strings, paths and number formatting\<close>

text \<open>
  Python strings are modelled as \<open>string\<close>; only the ASCII letters have a lower-case
  form, which is what \<open>str.lower\<close> does on the file and column names of this program.
\<close>

definition lower_char :: "char \<Rightarrow> char" where
  "lower_char c =
     (if 65 \<le> (of_char c :: nat) \<and> (of_char c :: nat) \<le> 90
      then char_of ((of_char c :: nat) + 32) else c)"

definition lower :: "string \<Rightarrow> string" where
  "lower s = map lower_char s"

fun starts_with :: "string \<Rightarrow> string \<Rightarrow> bool" where
  "starts_with [] s = True"
| "starts_with (p # ps) [] = False"
| "starts_with (p # ps) (c # cs) = (p = c \<and> starts_with ps cs)"

text \<open>\<open>contains sub s\<close> is Python's \<open>sub in s\<close>.\<close>

fun contains :: "string \<Rightarrow> string \<Rightarrow> bool" where
  "contains sub [] = (sub = [])"
| "contains sub (c # cs) = (starts_with sub (c # cs) \<or> contains sub cs)"

definition digit_char :: "nat \<Rightarrow> char" where
  "digit_char d = char_of (48 + d)"

fun show_nat :: "nat \<Rightarrow> string" where
  "show_nat n = (if n < 10 then [digit_char n] else show_nat (n div 10) @ [digit_char (n mod 10)])"

declare show_nat.simps [simp del]

text \<open>The format specification \<open>{i:03d}\<close> for a non-negative \<open>i\<close>: at least three digits.\<close>

definition format_03d :: "nat \<Rightarrow> string" where
  "format_03d i = replicate (3 - length (show_nat i)) (CHR ''0'') @ show_nat i"

text \<open>
  \<open>Path.stem\<close>: the file name without its last suffix. With \<open>i\<close> the position of the
  last dot, the suffix is cut only when \<open>0 < i < len(name) - 1\<close>.
\<close>

definition rfind_dot :: "string \<Rightarrow> nat option" where
  "rfind_dot name =
     (if CHR ''.'' \<in> set name
      then Some (length name - 1 - length (takeWhile (\<lambda>c. c \<noteq> CHR ''.'') (rev name)))
      else None)"

definition stem :: "string \<Rightarrow> string" where
  "stem name =
     (case rfind_dot name of
        None \<Rightarrow> name
      | Some i \<Rightarrow> if 0 < i \<and> i + 1 < length name then take i name else name)"

section \<open>Source classification\<close>

datatype source = Noaa | Copernicus | Argo | Ncei

text \<open>The chain of \<open>if\<close>/\<open>elif\<close> in \<open>process_all\<close>, on the lower-cased file name.\<close>

definition classify :: "string \<Rightarrow> source option" where
  "classify name =
     (let filename = lower name in
      if contains ''noaa'' filename \<or> contains ''jpl'' filename then Some Noaa
      else if contains ''copernicus'' filename then Some Copernicus
      else if contains ''argo'' filename then Some Argo
      else if contains ''ghcnd'' filename \<or> contains ''stations'' filename then Some Ncei
      else None)"

section \<open>Tables\<close>

text \<open>
  A cell of a parsed table is missing (\<open>NaN\<close>/\<open>None\<close>/\<open>NaT\<close>), a number, a text or a
  timestamp (year, month, day, hour, minute, second). Numbers are rationals: the decimal
  values of the files, without the rounding of binary floating point.
\<close>

datatype cell = Null | Num rat | Str string | Time nat nat nat nat nat nat

record frame =
  cols :: "string list"
  rws :: "cell list list"

datatype error =
    ValueError string
  | KeyError string
  | TypeError string
  | AttributeError string
  | OverflowError string
  | ZeroDivisionError

record out_file =
  path :: string
  content :: frame

text \<open>
  What is handed to \<open>logger.log\<close>: source, operation and status, and for an \<open>ERROR\<close> the
  exception whose text is the detail. The other detail texts are messages for the reader
  of the log and are left out.
\<close>

record event =
  ev_source :: string
  ev_operation :: string
  ev_status :: string
  ev_error :: "error option"

definition ev :: "string \<Rightarrow> string \<Rightarrow> string \<Rightarrow> event" where
  "ev s operation st =
     \<lparr>ev_source = s, ev_operation = operation, ev_status = st, ev_error = None\<rparr>"

definition ev_err :: "string \<Rightarrow> string \<Rightarrow> error \<Rightarrow> event" where
  "ev_err s operation e =
     \<lparr>ev_source = s, ev_operation = operation, ev_status = ''ERROR'', ev_error = Some e\<rparr>"

section \<open>The chunked writer\<close>

text \<open>
  \<open>numpy.array_split\<close> with a number of sections: the first \<open>n mod k\<close> sections hold
  \<open>n div k + 1\<close> rows and the others \<open>n div k\<close>; it raises for \<open>k \<le> 0\<close>.
\<close>

fun split_sizes :: "nat list \<Rightarrow> 'a list \<Rightarrow> 'a list list" where
  "split_sizes [] xs = []"
| "split_sizes (s # ss) xs = take s xs # split_sizes ss (drop s xs)"

definition array_split :: "'a list \<Rightarrow> int \<Rightarrow> error + 'a list list" where
  "array_split xs nsections =
     (if nsections \<le> 0 then Inl (ValueError ''number sections must be larger than 0.'')
      else
        let k = nat nsections;
            neach = length xs div k;
            extras = length xs mod k
        in Inr (split_sizes (replicate extras (neach + 1) @ replicate (k - extras) neach) xs))"

fun enumerate_from :: "nat \<Rightarrow> 'a list \<Rightarrow> (nat \<times> 'a) list" where
  "enumerate_from i [] = []"
| "enumerate_from i (x # xs) = (i, x) # enumerate_from (Suc i) xs"

definition single_name :: "string \<Rightarrow> string \<Rightarrow> string \<Rightarrow> string" where
  "single_name output_dir source_prefix base_name =
     output_dir @ ''/'' @ source_prefix @ ''_'' @ base_name @ ''_processed.csv''"

definition part_name :: "string \<Rightarrow> string \<Rightarrow> string \<Rightarrow> nat \<Rightarrow> string" where
  "part_name output_dir source_prefix base_name i =
     output_dir @ ''/'' @ source_prefix @ ''_'' @ base_name @ ''_processed_part''
       @ format_03d i @ ''.csv''"

text \<open>
  \<open>_save_chunked\<close>: the files written, in order, and the events logged; or the exception
  of the division or of \<open>array_split\<close>, raised before anything is written.
\<close>

definition save_chunked ::
  "int \<Rightarrow> frame \<Rightarrow> string \<Rightarrow> string \<Rightarrow> string \<Rightarrow> error + (out_file list \<times> event list)" where
  "save_chunked max_rows df original_file output_dir source_prefix =
     (if length (rws df) = 0 then Inr ([], [ev ''PROCESSOR'' ''SAVE'' ''WARNING''])
      else
        let base_name = stem original_file in
        if int (length (rws df)) \<le> max_rows
        then Inr ([\<lparr>path = single_name output_dir source_prefix base_name, content = df\<rparr>],
                  [ev ''PROCESSOR'' ''SAVE'' ''INFO''])
        else if max_rows = 0 then Inl ZeroDivisionError
        else
          let num_chunks = (int (length (rws df)) + max_rows - 1) div max_rows in
          case array_split (rws df) num_chunks of
            Inl e \<Rightarrow> Inl e
          | Inr chunks \<Rightarrow>
              Inr (map (\<lambda>(i, chunk).
                         \<lparr>path = part_name output_dir source_prefix base_name i,
                          content = \<lparr>cols = cols df, rws = chunk\<rparr>\<rparr>)
                       (enumerate_from 1 chunks),
                   ev ''PROCESSOR'' ''SAVE'' ''INFO''
                     # map (\<lambda>c. ev ''PROCESSOR'' ''SAVE'' ''INFO'') chunks))"

text \<open>
  \<open>PipelineLogger.log\<close> stamps each entry with the clock: the entry number \<open>n\<close> of a session
  gets the \<open>n\<close>-th reading. A logged run of the writer is the writer with its events
  entered in the log one after the other.
\<close>

definition logger_log :: "(nat \<Rightarrow> string) \<Rightarrow> (string \<times> event) list \<Rightarrow> event
    \<Rightarrow> (string \<times> event) list" where
  "logger_log clock entries e = entries @ [(clock (length entries), e)]"

definition save_chunked_logged ::
  "(nat \<Rightarrow> string) \<Rightarrow> (string \<times> event) list \<Rightarrow> int \<Rightarrow> frame \<Rightarrow> string \<Rightarrow> string
     \<Rightarrow> string \<Rightarrow> error + (out_file list \<times> (string \<times> event) list)" where
  "save_chunked_logged clock entries max_rows df original_file output_dir source_prefix =
     (case save_chunked max_rows df original_file output_dir source_prefix of
        Inl e \<Rightarrow> Inl e
      | Inr (files, evs) \<Rightarrow> Inr (files, foldl (logger_log clock) entries evs))"

definition files_of :: "error + (out_file list \<times> 'l) \<Rightarrow> error + out_file list" where
  "files_of r = (case r of Inl e \<Rightarrow> Inl e | Inr (files, l) \<Rightarrow> Inr files)"

section \<open>Operations on tables\<close>

text \<open>A row shorter than the header misses its last cells.\<close>

definition cell_at :: "cell list \<Rightarrow> nat \<Rightarrow> cell" where
  "cell_at r i = (if i < length r then r ! i else Null)"

definition col_positions :: "string list \<Rightarrow> string \<Rightarrow> nat list" where
  "col_positions cs c = filter (\<lambda>i. cs ! i = c) [0..<length cs]"

definition column :: "frame \<Rightarrow> nat \<Rightarrow> cell list" where
  "column df i = map (\<lambda>r. cell_at r i) (rws df)"

text \<open>\<open>df.rename(columns=mapping)\<close>.\<close>

definition rename_cols :: "(string \<Rightarrow> string option) \<Rightarrow> frame \<Rightarrow> frame" where
  "rename_cols mapping df =
     df\<lparr>cols := map (\<lambda>c. case mapping c of Some c' \<Rightarrow> c' | None \<Rightarrow> c) (cols df)\<rparr>"

text \<open>
  \<open>df[names]\<close> for names that are all columns of \<open>df\<close>: for each name in turn, every
  column with that label.
\<close>

definition select_cols :: "frame \<Rightarrow> string list \<Rightarrow> frame" where
  "select_cols df names =
     (let ps = concat (map (col_positions (cols df)) names) in
      \<lparr>cols = map (\<lambda>i. cols df ! i) ps, rws = map (\<lambda>r. map (cell_at r) ps) (rws df)\<rparr>)"

text \<open>\<open>df[c] = None\<close> for a new label \<open>c\<close>: one more column, missing in every row.\<close>

definition pad_row :: "nat \<Rightarrow> cell list \<Rightarrow> cell list" where
  "pad_row n r = take n r @ replicate (n - length r) Null"

definition add_null_col :: "string \<Rightarrow> frame \<Rightarrow> frame" where
  "add_null_col c df =
     \<lparr>cols = cols df @ [c], rws = map (\<lambda>r. pad_row (length (cols df)) r @ [Null]) (rws df)\<rparr>"

definition map_column :: "nat \<Rightarrow> (cell \<Rightarrow> cell) \<Rightarrow> frame \<Rightarrow> frame" where
  "map_column i f df =
     df\<lparr>rws := map (\<lambda>r. (pad_row (length (cols df)) r)[i := f (cell_at r i)]) (rws df)\<rparr>"

text \<open>
  \<open>Series.mean()\<close>: missing values are skipped, the mean of no value is \<open>NaN\<close> (here
  \<open>None\<close>), and a column with a text in it cannot be averaged.
\<close>

fun num_values :: "cell list \<Rightarrow> rat list" where
  "num_values [] = []"
| "num_values (Num v # cs) = v # num_values cs"
| "num_values (c # cs) = num_values cs"

fun is_number_or_null :: "cell \<Rightarrow> bool" where
  "is_number_or_null Null = True"
| "is_number_or_null (Num v) = True"
| "is_number_or_null c = False"

definition series_mean :: "cell list \<Rightarrow> error + rat option" where
  "series_mean xs =
     (if \<not> list_all is_number_or_null xs then Inl (TypeError ''Could not convert to numeric'')
      else if num_values xs = [] then Inr None
      else Inr (Some (sum_list (num_values xs) / of_nat (length (num_values xs)))))"

text \<open>\<open>m > 200\<close>, false for \<open>NaN\<close>.\<close>

definition exceeds_200 :: "rat option \<Rightarrow> bool" where
  "exceeds_200 m = (case m of None \<Rightarrow> False | Some v \<Rightarrow> 200 < v)"

fun minus_273_15 :: "cell \<Rightarrow> cell" where
  "minus_273_15 (Num v) = Num (v - 27315 / 100)"
| "minus_273_15 c = c"

text \<open>
  \<open>df.dropna(subset=names)\<close>: a \<open>KeyError\<close> for a name that is no column; otherwise the
  rows with no missing cell under these names, in their order.
\<close>

definition coord_positions :: "string list \<Rightarrow> nat list" where
  "coord_positions cs = concat (map (col_positions cs) [''latitude'', ''longitude''])"

definition row_complete :: "nat list \<Rightarrow> cell list \<Rightarrow> bool" where
  "row_complete ps r = list_all (\<lambda>i. cell_at r i \<noteq> Null) ps"

definition dropna :: "string list \<Rightarrow> frame \<Rightarrow> error + frame" where
  "dropna names df =
     (case filter (\<lambda>c. c \<notin> set (cols df)) names of
        c # cs \<Rightarrow> Inl (KeyError c)
      | [] \<Rightarrow>
          Inr (df\<lparr>rws := filter (row_complete (concat (map (col_positions (cols df)) names)))
                               (rws df)\<rparr>))"

text \<open>\<open>logger.log_data_preview(df.head(), source, stage)\<close>: two events unless the table is empty.\<close>

definition log_data_preview :: "frame \<Rightarrow> string \<Rightarrow> event list" where
  "log_data_preview df src =
     (if rws df = [] \<or> cols df = [] then []
      else [ev src ''DATA_PREVIEW'' ''INFO'', ev src ''DATA_PREVIEW'' ''INFO''])"

definition bind_err :: "error + 'a \<Rightarrow> ('a \<Rightarrow> error + 'b) \<Rightarrow> error + 'b" where
  "bind_err x f = (case x of Inl e \<Rightarrow> Inl e | Inr v \<Rightarrow> f v)"

section \<open>Raw files and configuration\<close>

text \<open>
  A raw file is its name and what the reader of its mapping returns on it
  (\<open>pandas.read_csv\<close>, or \<open>read_fwf\<close> for the station list): a table, or the exception
  of a file that cannot be read.
\<close>

record raw_file =
  file_name :: string
  table :: "error + frame"

record config =
  max_rows_per_file :: int
  noaa_dir :: string
  copernicus_dir :: string
  argo_dir :: string
  ncei_dir :: string

definition required_cols :: "string list" where
  "required_cols = [''timestamp'', ''latitude'', ''longitude'', ''sea_surface_temperature'']"

section \<open>The NOAA mapping\<close>

definition noaa_target :: "string \<Rightarrow> string option" where
  "noaa_target col =
     (let col_lower = lower col in
      if contains ''time'' col_lower then Some ''timestamp''
      else if contains ''lat'' col_lower then Some ''latitude''
      else if contains ''lon'' col_lower then Some ''longitude''
      else if contains ''sst'' col_lower \<or> contains ''analysed'' col_lower
        then Some ''sea_surface_temperature''
      else None)"

text \<open>
  The conversion from Kelvin. Where the label stands on several columns the mean is a
  series of means and its comparison has no truth value: the \<open>if\<close> raises.
\<close>

definition sst_rename :: "string \<Rightarrow> string option" where
  "sst_rename c = (if c = ''sea_surface_temperature'' then Some ''sst_celsius'' else None)"

definition noaa_units :: "frame \<Rightarrow> error + frame" where
  "noaa_units result =
     (if ''sea_surface_temperature'' \<in> set (cols result) then
        (case col_positions (cols result) ''sea_surface_temperature'' of
           [i] \<Rightarrow>
             bind_err (series_mean (column result i)) (\<lambda>m.
               if exceeds_200 m
               then Inr (rename_cols sst_rename (map_column i minus_273_15 result))
               else Inr result)
         | _ \<Rightarrow> Inl (ValueError ''The truth value of a Series is ambiguous''))
      else Inr result)"

text \<open>The table of \<open>process_noaa_file\<close> before and after the rows without coordinates are dropped.\<close>

definition noaa_mapped :: "frame \<Rightarrow> error + frame" where
  "noaa_mapped df0 =
     (let df = rename_cols noaa_target df0;
          available_cols = filter (\<lambda>c. c \<in> set (cols df)) required_cols
      in if available_cols = [] then Inl (ValueError ''No recognizable columns found'')
         else noaa_units (select_cols df available_cols))"

definition noaa_frame :: "frame \<Rightarrow> error + frame" where
  "noaa_frame df0 = bind_err (noaa_mapped df0) (dropna [''latitude'', ''longitude''])"

text \<open>
  A mapping logs its start, then what its body logs, then its success or the exception:
  the body gives the files or the exception, with the events logged until then. The
  preview is logged before the writer is called, so that it stays in the log when the
  writer raises.
\<close>

definition mapping_result ::
  "string \<Rightarrow> (error + out_file list) \<times> event list \<Rightarrow> out_file list \<times> event list" where
  "mapping_result src r =
     (case r of
        (Inl e, evs) \<Rightarrow>
          ([], ev src ''PROCESSING'' ''STARTED'' # evs @ [ev_err src ''PROCESSING'' e])
      | (Inr files, evs) \<Rightarrow>
          (files, ev src ''PROCESSING'' ''STARTED'' # evs @ [ev src ''PROCESSING'' ''SUCCESS'']))"

definition save_result ::
  "int \<Rightarrow> string \<Rightarrow> string \<Rightarrow> string \<Rightarrow> string \<Rightarrow> frame
     \<Rightarrow> (error + out_file list) \<times> event list" where
  "save_result max_rows original_file output_dir source_prefix src result =
     (case save_chunked max_rows result original_file output_dir source_prefix of
        Inl e \<Rightarrow> (Inl e, log_data_preview result src)
      | Inr (files, evs) \<Rightarrow> (Inr files, log_data_preview result src @ evs))"

definition then_save ::
  "error + frame \<Rightarrow> (frame \<Rightarrow> (error + out_file list) \<times> event list)
     \<Rightarrow> (error + out_file list) \<times> event list" where
  "then_save x save = (case x of Inl e \<Rightarrow> (Inl e, []) | Inr result \<Rightarrow> save result)"

definition process_noaa_file :: "config \<Rightarrow> raw_file \<Rightarrow> out_file list \<times> event list" where
  "process_noaa_file cfg f =
     mapping_result ''NOAA''
       (then_save (bind_err (table f) noaa_frame)
          (save_result (max_rows_per_file cfg) (file_name f) (noaa_dir cfg) ''noaa'' ''NOAA''))"

section \<open>The Copernicus mapping\<close>

definition copernicus_target :: "string \<Rightarrow> string option" where
  "copernicus_target col =
     (let col_lower = lower col in
      if contains ''time'' col_lower \<or> contains ''date'' col_lower then Some ''timestamp''
      else if contains ''lat'' col_lower then Some ''latitude''
      else if contains ''lon'' col_lower then Some ''longitude''
      else if contains ''sst'' col_lower \<or> contains ''temp'' col_lower
              \<or> contains ''analysed'' col_lower
        then Some ''sea_surface_temperature''
      else None)"

fun add_missing_cols :: "string list \<Rightarrow> frame \<Rightarrow> frame" where
  "add_missing_cols [] df = df"
| "add_missing_cols (c # cs) df =
     add_missing_cols cs (if c \<in> set (cols df) then df else add_null_col c df)"

definition copernicus_units :: "frame \<Rightarrow> error + frame" where
  "copernicus_units result =
     (if ''sea_surface_temperature'' \<in> set (cols result) then
        (case col_positions (cols result) ''sea_surface_temperature'' of
           [i] \<Rightarrow>
             bind_err (series_mean (column result i)) (\<lambda>m.
               if exceeds_200 m
               then Inr (map_column i minus_273_15 result)
               else Inr result)
         | _ \<Rightarrow> Inl (ValueError ''The truth value of a Series is ambiguous''))
      else Inr result)"

definition copernicus_mapped :: "frame \<Rightarrow> error + frame" where
  "copernicus_mapped df0 =
     (let df = add_missing_cols required_cols (rename_cols copernicus_target df0)
      in copernicus_units (select_cols df required_cols))"

definition copernicus_frame :: "frame \<Rightarrow> error + frame" where
  "copernicus_frame df0 =
     bind_err (copernicus_mapped df0) (dropna [''latitude'', ''longitude''])"

definition process_copernicus_file :: "config \<Rightarrow> raw_file \<Rightarrow> out_file list \<times> event list" where
  "process_copernicus_file cfg f =
     mapping_result ''COPERNICUS''
       (then_save (bind_err (table f) copernicus_frame)
          (save_result (max_rows_per_file cfg) (file_name f) (copernicus_dir cfg)
             ''copernicus'' ''COPERNICUS''))"

section \<open>The Argo mapping\<close>

text \<open>
  \<open>pandas.to_datetime\<close> with the format \<open>%Y%m%d%H%M%S\<close>. The format is matched as a
  regular expression, directive by directive, the alternatives of a directive in their
  order, and the first match counts: \<open>%Y\<close> is four digits, the other directives take two
  digits in their range or else one digit (the leading zero is optional), \<open>%d\<close> also a
  space and a digit. The match has to end where the token ends, and the day has to be a
  day of its month. Under \<open>errors='coerce'\<close> every failure is \<open>NaT\<close>.
\<close>

definition is_digit :: "char \<Rightarrow> bool" where
  "is_digit c = (48 \<le> (of_char c :: nat) \<and> (of_char c :: nat) \<le> 57)"

definition digit_val :: "char \<Rightarrow> nat" where
  "digit_val c = (of_char c :: nat) - 48"

fun two_digit_alt :: "nat \<Rightarrow> nat \<Rightarrow> string \<Rightarrow> (nat \<times> string) list" where
  "two_digit_alt lo hi (a # b # rest) =
     (if is_digit a \<and> is_digit b \<and> lo \<le> 10 * digit_val a + digit_val b
         \<and> 10 * digit_val a + digit_val b \<le> hi
      then [(10 * digit_val a + digit_val b, rest)] else [])"
| "two_digit_alt lo hi s = []"

fun one_digit_alt :: "nat \<Rightarrow> string \<Rightarrow> (nat \<times> string) list" where
  "one_digit_alt lo (a # rest) =
     (if is_digit a \<and> lo \<le> digit_val a then [(digit_val a, rest)] else [])"
| "one_digit_alt lo s = []"

fun space_digit_alt :: "string \<Rightarrow> (nat \<times> string) list" where
  "space_digit_alt (a # b # rest) =
     (if a = CHR '' '' \<and> is_digit b \<and> 1 \<le> digit_val b then [(digit_val b, rest)] else [])"
| "space_digit_alt s = []"

fun directive_Y :: "string \<Rightarrow> (nat \<times> string) list" where
  "directive_Y (a # b # c # d # rest) =
     (if is_digit a \<and> is_digit b \<and> is_digit c \<and> is_digit d
      then [(1000 * digit_val a + 100 * digit_val b + 10 * digit_val c + digit_val d, rest)]
      else [])"
| "directive_Y s = []"

definition directive_m :: "string \<Rightarrow> (nat \<times> string) list" where
  "directive_m s = two_digit_alt 1 12 s @ one_digit_alt 1 s"

definition directive_d :: "string \<Rightarrow> (nat \<times> string) list" where
  "directive_d s = two_digit_alt 1 31 s @ one_digit_alt 1 s @ space_digit_alt s"

definition directive_H :: "string \<Rightarrow> (nat \<times> string) list" where
  "directive_H s = two_digit_alt 0 23 s @ one_digit_alt 0 s"

definition directive_M :: "string \<Rightarrow> (nat \<times> string) list" where
  "directive_M s = two_digit_alt 0 59 s @ one_digit_alt 0 s"

definition directive_S :: "string \<Rightarrow> (nat \<times> string) list" where
  "directive_S s = two_digit_alt 0 61 s @ one_digit_alt 0 s"

text \<open>All matches of the format at the start of the token, in the order of backtracking.\<close>

definition format_matches :: "string \<Rightarrow> ((nat \<times> nat \<times> nat \<times> nat \<times> nat \<times> nat) \<times> string) list" where
  "format_matches s =
     concat (map (\<lambda>(y, s1).
     concat (map (\<lambda>(m, s2).
     concat (map (\<lambda>(d, s3).
     concat (map (\<lambda>(h, s4).
     concat (map (\<lambda>(mi, s5).
             map (\<lambda>(se, s6). ((y, m, d, h, mi, se), s6)) (directive_S s5))
       (directive_M s4)))
       (directive_H s3)))
       (directive_d s2)))
       (directive_m s1)))
       (directive_Y s))"

definition leap_year :: "nat \<Rightarrow> bool" where
  "leap_year y = (y mod 4 = 0 \<and> (y mod 100 \<noteq> 0 \<or> y mod 400 = 0))"

definition days_in_month :: "nat \<Rightarrow> nat \<Rightarrow> nat" where
  "days_in_month y m =
     (if m = 2 then (if leap_year y then 29 else 28)
      else if m = 4 \<or> m = 6 \<or> m = 9 \<or> m = 11 then 30 else 31)"

text \<open>
  The fields the format accepts: a day of the calendar, and seconds up to 61.
\<close>

definition valid_datetime :: "nat \<times> nat \<times> nat \<times> nat \<times> nat \<times> nat \<Rightarrow> bool" where
  "valid_datetime t =
     (case t of (y, m, d, h, mi, se) \<Rightarrow>
        1 \<le> y \<and> 1 \<le> m \<and> m \<le> 12 \<and> 1 \<le> d \<and> d \<le> days_in_month y m
        \<and> h \<le> 23 \<and> mi \<le> 59 \<and> se \<le> 61)"

definition strptime :: "string \<Rightarrow> (nat \<times> nat \<times> nat \<times> nat \<times> nat \<times> nat) option" where
  "strptime s =
     (case format_matches s of
        [] \<Rightarrow> None
      | (t, rest) # others \<Rightarrow> if rest = [] \<and> valid_datetime t then Some t else None)"

text \<open>
  Seconds 60 and 61 are carried into the next minute. The timestamp is kept in
  nanoseconds of 64 bits: whole seconds from 1677-09-21 00:12:44 to 2262-04-11 23:47:16
  are in range, and a date outside is \<open>NaT\<close> under \<open>errors='coerce'\<close>.
\<close>

definition next_day :: "nat \<times> nat \<times> nat \<Rightarrow> nat \<times> nat \<times> nat" where
  "next_day t =
     (case t of (y, m, d) \<Rightarrow>
        if d < days_in_month y m then (y, m, d + 1)
        else if m < 12 then (y, m + 1, 1) else (y + 1, 1, 1))"

definition carry_seconds ::
  "nat \<times> nat \<times> nat \<times> nat \<times> nat \<times> nat \<Rightarrow> nat \<times> nat \<times> nat \<times> nat \<times> nat \<times> nat" where
  "carry_seconds t =
     (case t of (y, m, d, h, mi, se) \<Rightarrow>
        if se < 60 then t
        else if mi < 59 then (y, m, d, h, mi + 1, se - 60)
        else if h < 23 then (y, m, d, h + 1, 0, se - 60)
        else (case next_day (y, m, d) of (y', m', d') \<Rightarrow> (y', m', d', 0, 0, se - 60)))"

definition time_key :: "nat \<times> nat \<times> nat \<times> nat \<times> nat \<times> nat \<Rightarrow> int" where
  "time_key t =
     (case t of (y, m, d, h, mi, se) \<Rightarrow>
        ((((int y * 12 + (int m - 1)) * 31 + (int d - 1)) * 24 + int h) * 60 + int mi) * 60
          + int se)"

definition in_ns_range :: "nat \<times> nat \<times> nat \<times> nat \<times> nat \<times> nat \<Rightarrow> bool" where
  "in_ns_range t =
     (time_key (1677, 9, 21, 0, 12, 44) \<le> time_key t
      \<and> time_key t \<le> time_key (2262, 4, 11, 23, 47, 16))"

definition time_cell :: "(nat \<times> nat \<times> nat \<times> nat \<times> nat \<times> nat) option \<Rightarrow> cell" where
  "time_cell t =
     (case t of
        None \<Rightarrow> Null
      | Some matched \<Rightarrow>
          (case carry_seconds matched of (y, m, d, h, mi, se) \<Rightarrow>
             if in_ns_range (y, m, d, h, mi, se) then Time y m d h mi se else Null))"

text \<open>
  A date read as a number is parsed from the decimal digits of its whole part.
\<close>

fun to_datetime :: "cell \<Rightarrow> cell" where
  "to_datetime Null = Null"
| "to_datetime (Str s) = time_cell (strptime s)"
| "to_datetime (Num v) =
     (if 0 \<le> v then time_cell (strptime (show_nat (nat \<lfloor>v\<rfloor>))) else Null)"
| "to_datetime (Time y m d h mi se) = Time y m d h mi se"

text \<open>
  \<open>pandas.to_numeric(column, errors='coerce')\<close>: a text becomes the number it spells, or
  missing. How pandas reads a number from a text is a parameter of the model.
\<close>

fun to_numeric :: "(string \<Rightarrow> rat option) \<Rightarrow> cell \<Rightarrow> cell" where
  "to_numeric str_to_num (Num v) = Num v"
| "to_numeric str_to_num (Str s) = (case str_to_num s of Some v \<Rightarrow> Num v | None \<Rightarrow> Null)"
| "to_numeric str_to_num c = Null"

text \<open>What the run takes from outside the files: the number reader and the current date.\<close>

record env =
  str_to_num :: "string \<Rightarrow> rat option"
  today :: string

text \<open>The reader is given the column names: the rows of the file stand under these names.\<close>

definition with_names :: "string list \<Rightarrow> frame \<Rightarrow> frame" where
  "with_names names t = \<lparr>cols = names, rws = map (pad_row (length names)) (rws t)\<rparr>"

definition argo_names :: "string list" where
  "argo_names = [''file'', ''date'', ''latitude'', ''longitude'', ''ocean'', ''prof_type'',
                 ''institution'', ''date_update'']"

text \<open>
  The rows of \<open>process_argo_file\<close>: timestamp from the date, the numeric coordinates,
  ocean, profile type and institution; then the rows without a coordinate are dropped and
  the empty temperature is attached.
\<close>

definition argo_row :: "env \<Rightarrow> cell list \<Rightarrow> cell list" where
  "argo_row e r =
     [to_datetime (cell_at r 1), to_numeric (str_to_num e) (cell_at r 2),
      to_numeric (str_to_num e) (cell_at r 3), cell_at r 4, cell_at r 5, cell_at r 6]"

definition argo_mapped :: "env \<Rightarrow> frame \<Rightarrow> frame" where
  "argo_mapped e t =
     \<lparr>cols = [''timestamp'', ''latitude'', ''longitude'', ''ocean'', ''prof_type'',
              ''institution''],
      rws = map (argo_row e) (rws (with_names argo_names t))\<rparr>"

definition argo_frame :: "env \<Rightarrow> frame \<Rightarrow> error + frame" where
  "argo_frame e t =
     bind_err (dropna [''latitude'', ''longitude''] (argo_mapped e t))
       (\<lambda>result. Inr (add_null_col ''temperature_celsius'' result))"

definition process_argo_file :: "env \<Rightarrow> config \<Rightarrow> raw_file \<Rightarrow> out_file list \<times> event list" where
  "process_argo_file e cfg f =
     mapping_result ''ARGO''
       (then_save (bind_err (table f) (argo_frame e))
          (save_result (max_rows_per_file cfg) (file_name f) (argo_dir cfg) ''argo'' ''ARGO''))"

section \<open>The NCEI mapping\<close>

definition ncei_names :: "string list" where
  "ncei_names = [''station_id'', ''latitude'', ''longitude'', ''elevation'', ''state'', ''name'']"

text \<open>
  \<open>df['state'].str[:2]\<close>: the \<open>.str\<close> accessor exists on a column of texts (or on a
  column without rows) and raises on a column of numbers or of missing values only.
\<close>

fun is_text :: "cell \<Rightarrow> bool" where
  "is_text (Str s) = True"
| "is_text c = False"

fun first_two :: "cell \<Rightarrow> cell" where
  "first_two (Str s) = Str (take 2 s)"
| "first_two c = Null"

definition ncei_row :: "env \<Rightarrow> cell list \<Rightarrow> cell list" where
  "ncei_row e r =
     [cell_at r 0, Str (today e), to_numeric (str_to_num e) (cell_at r 1),
      to_numeric (str_to_num e) (cell_at r 2), to_numeric (str_to_num e) (cell_at r 3),
      first_two (cell_at r 4), cell_at r 5]"

definition ncei_mapped :: "env \<Rightarrow> frame \<Rightarrow> error + frame" where
  "ncei_mapped e t =
     (let df = with_names ncei_names t in
      if rws df \<noteq> [] \<and> \<not> list_ex is_text (column df 4)
      then Inl (AttributeError ''Can only use .str accessor with string values'')
      else
        Inr \<lparr>cols = [''station_id'', ''timestamp'', ''latitude'', ''longitude'', ''elevation_m'',
                      ''country'', ''station_name''],
              rws = map (ncei_row e) (rws df)\<rparr>)"

definition ncei_frame :: "env \<Rightarrow> frame \<Rightarrow> error + frame" where
  "ncei_frame e t = bind_err (ncei_mapped e t) (dropna [''latitude'', ''longitude''])"

definition process_ncei_file :: "env \<Rightarrow> config \<Rightarrow> raw_file \<Rightarrow> out_file list \<times> event list" where
  "process_ncei_file e cfg f =
     mapping_result ''NCEI''
       (then_save (bind_err (table f) (ncei_frame e))
          (save_result (max_rows_per_file cfg) (file_name f) (ncei_dir cfg) ''ncei'' ''NCEI''))"

section \<open>Processing all raw files\<close>

text \<open>
  The manifest is the dictionary of \<open>process_all\<close>: its keys in the order of creation, each
  with the paths written for it. The run also yields the files written and the events.
\<close>

record run =
  manifest :: "(string \<times> string list) list"
  written :: "out_file list"
  events :: "event list"

definition initial_run :: run where
  "initial_run =
     \<lparr>manifest = [(''noaa'', []), (''copernicus'', []), (''argo'', []), (''ncei'', [])],
      written = [], events = []\<rparr>"

definition extend_key :: "string \<Rightarrow> string list \<Rightarrow> (string \<times> string list) list
    \<Rightarrow> (string \<times> string list) list" where
  "extend_key k ps m = map (\<lambda>(k', v). if k' = k then (k', v @ ps) else (k', v)) m"

definition source_key :: "source \<Rightarrow> string" where
  "source_key s = (case s of Noaa \<Rightarrow> ''noaa'' | Copernicus \<Rightarrow> ''copernicus''
                   | Argo \<Rightarrow> ''argo'' | Ncei \<Rightarrow> ''ncei'')"

definition process_file :: "env \<Rightarrow> config \<Rightarrow> source \<Rightarrow> raw_file \<Rightarrow> out_file list \<times> event list" where
  "process_file e cfg s f =
     (case s of
        Noaa \<Rightarrow> process_noaa_file cfg f
      | Copernicus \<Rightarrow> process_copernicus_file cfg f
      | Argo \<Rightarrow> process_argo_file e cfg f
      | Ncei \<Rightarrow> process_ncei_file e cfg f)"

definition process_one :: "env \<Rightarrow> config \<Rightarrow> run \<Rightarrow> raw_file \<Rightarrow> run" where
  "process_one e cfg st f =
     (case classify (file_name f) of
        None \<Rightarrow>
          st\<lparr>events := events st @ [ev ''PROCESSOR'' ''FILE_PROCESSING'' ''STARTED'',
                                     ev ''PROCESSOR'' ''FILE_PROCESSING'' ''WARNING'']\<rparr>
      | Some s \<Rightarrow>
          (case process_file e cfg s f of
             (files, evs) \<Rightarrow>
               \<lparr>manifest = extend_key (source_key s) (map path files) (manifest st),
                written = written st @ files,
                events = events st @ ev ''PROCESSOR'' ''FILE_PROCESSING'' ''STARTED'' # evs\<rparr>))"

definition process_all :: "env \<Rightarrow> config \<Rightarrow> raw_file list \<Rightarrow> run" where
  "process_all e cfg raw_files = foldl (process_one e cfg) initial_run raw_files"

section \<open>The generator of numpy\<close>

text \<open>
  \<open>numpy.random.seed\<close> and \<open>numpy.random.uniform\<close> are the Mersenne Twister MT19937 on words
  of 32 bits, here integers below \<open>2 ^ 32\<close>. Seeding fills the 624 words of the key and
  leaves no word to draw, so that the first draw regenerates the key; \<open>mt_rest\<close> holds
  the words of the key not drawn yet.
\<close>

definition m32 :: "int \<Rightarrow> int" where
  "m32 x = x mod 4294967296"

fun init_key :: "int \<Rightarrow> int \<Rightarrow> nat \<Rightarrow> int list" where
  "init_key seed pos 0 = []"
| "init_key seed pos (Suc n) =
     seed # init_key (m32 (1812433253 * (seed XOR drop_bit 30 seed) + pos + 1)) (pos + 1) n"

definition mt_seed :: "int \<Rightarrow> int list" where
  "mt_seed seed = init_key (m32 seed) 0 624"

definition mix :: "int \<Rightarrow> int \<Rightarrow> int \<Rightarrow> int" where
  "mix a b c =
     (let y = (a AND 2147483648) OR (b AND 2147483647) in
      c XOR drop_bit 1 y XOR (if odd y then 2567483615 else 0))"

fun mix3 :: "int list \<Rightarrow> int list \<Rightarrow> int list \<Rightarrow> int list" where
  "mix3 (a # as) (b # bs) (c # cs) = mix a b c # mix3 as bs cs"
| "mix3 as bs cs = []"

text \<open>
  The regeneration of the key in place: word \<open>i\<close> is mixed from the old words \<open>i\<close> and
  \<open>i + 1\<close> and from word \<open>i + 397\<close>, which for \<open>i \<ge> 227\<close> is the already new word
  \<open>i - 227\<close>; the last word takes the new first word.
\<close>

definition mt_gen :: "int list \<Rightarrow> int list" where
  "mt_gen k =
     (let n1 = mix3 (take 227 k) (take 227 (drop 1 k)) (drop 397 k);
          n2 = mix3 (take 227 (drop 227 k)) (take 227 (drop 228 k)) n1;
          n3 = mix3 (take 169 (drop 454 k)) (take 169 (drop 455 k)) n2;
          n4 = mix (k ! 623) (n1 ! 0) (n2 ! 169)
      in n1 @ n2 @ n3 @ [n4])"

definition temper :: "int \<Rightarrow> int" where
  "temper y0 =
     (let y1 = y0 XOR drop_bit 11 y0;
          y2 = y1 XOR (m32 (push_bit 7 y1) AND 2636928640);
          y3 = y2 XOR (m32 (push_bit 15 y2) AND 4022730752)
      in y3 XOR drop_bit 18 y3)"

record rng =
  mt_key :: "int list"
  mt_rest :: "int list"

definition np_random_seed :: "int \<Rightarrow> rng \<Rightarrow> error + rng" where
  "np_random_seed seed g =
     (if seed < 0 \<or> 4294967295 < seed
      then Inl (ValueError ''Seed must be between 0 and 2**32 - 1'')
      else Inr \<lparr>mt_key = mt_seed seed, mt_rest = []\<rparr>)"

definition next_uint32 :: "rng \<Rightarrow> int \<times> rng" where
  "next_uint32 g =
     (case mt_rest g of
        y # r \<Rightarrow> (temper y, g\<lparr>mt_rest := r\<rparr>)
      | [] \<Rightarrow> (let k = mt_gen (mt_key g) in (temper (hd k), \<lparr>mt_key = k, mt_rest = tl k\<rparr>)))"

text \<open>A double of 53 random bits in \<open>[0, 1)\<close>, as the integer of its bits.\<close>

definition next_bits53 :: "rng \<Rightarrow> int \<times> rng" where
  "next_bits53 g =
     (case next_uint32 g of (a, g1) \<Rightarrow>
      case next_uint32 g1 of (b, g2) \<Rightarrow>
        (drop_bit 5 a * 67108864 + drop_bit 6 b, g2))"

definition random_uniform :: "rat \<Rightarrow> rat \<Rightarrow> rng \<Rightarrow> rat \<times> rng" where
  "random_uniform low high g =
     (case next_bits53 g of (k, g') \<Rightarrow>
        (low + (high - low) * (of_int k / 9007199254740992), g'))"

section \<open>The synthetic Copernicus retrieval\<close>

text \<open>
  \<open>datetime.now() - timedelta(days=3)\<close> on the calendar; before the year 1 the subtraction
  overflows. \<open>strftime\<close> writes the year with four digits and month and day with two.
\<close>

record datetime =
  dt_year :: nat
  dt_month :: nat
  dt_day :: nat
  dt_hour :: nat
  dt_minute :: nat
  dt_second :: nat

definition previous_day :: "datetime \<Rightarrow> error + datetime" where
  "previous_day t =
     (if 1 < dt_day t then Inr (t\<lparr>dt_day := dt_day t - 1\<rparr>)
      else if 1 < dt_month t
        then Inr (t\<lparr>dt_month := dt_month t - 1,
                     dt_day := days_in_month (dt_year t) (dt_month t - 1)\<rparr>)
      else if 1 < dt_year t
        then Inr (t\<lparr>dt_year := dt_year t - 1, dt_month := 12, dt_day := 31\<rparr>)
      else Inl (OverflowError ''date value out of range''))"

fun minus_days :: "nat \<Rightarrow> datetime \<Rightarrow> error + datetime" where
  "minus_days 0 t = Inr t"
| "minus_days (Suc n) t = bind_err (previous_day t) (minus_days n)"

definition zero_pad :: "nat \<Rightarrow> nat \<Rightarrow> string" where
  "zero_pad w n = replicate (w - length (show_nat n)) (CHR ''0'') @ show_nat n"

definition strftime_noon :: "datetime \<Rightarrow> string" where
  "strftime_noon t =
     zero_pad 4 (dt_year t) @ ''-'' @ zero_pad 2 (dt_month t) @ ''-'' @ zero_pad 2 (dt_day t)
       @ ''T12:00:00Z''"

definition strftime_compact :: "datetime \<Rightarrow> string" where
  "strftime_compact t = zero_pad 4 (dt_year t) @ zero_pad 2 (dt_month t) @ zero_pad 2 (dt_day t)"

text \<open>
  \<open>numpy.linspace\<close> and \<open>round\<close> to decimals (ties to the even digit), on rationals.
\<close>

definition linspace :: "rat \<Rightarrow> rat \<Rightarrow> nat \<Rightarrow> rat list" where
  "linspace start stop num =
     map (\<lambda>i. start + of_nat i * ((stop - start) / of_nat (num - 1))) [0..<num]"

definition round_half_even :: "rat \<Rightarrow> int" where
  "round_half_even x =
     (let f = \<lfloor>x\<rfloor>; d = x - of_int f in
      if d < 1 / 2 then f else if 1 / 2 < d then f + 1 else if even f then f else f + 1)"

definition round_to :: "nat \<Rightarrow> rat \<Rightarrow> rat" where
  "round_to n x = of_int (round_half_even (x * 10 ^ n)) / 10 ^ n"

text \<open>
  The two loops of \<open>scrape_copernicus_sst\<close>: for each latitude and each longitude one
  draw; a sample is the point with its temperature before rounding.
\<close>

fun sample_grid :: "(rat \<times> rat) list \<Rightarrow> rng \<Rightarrow> (rat \<times> rat \<times> rat) list \<times> rng" where
  "sample_grid [] g = ([], g)"
| "sample_grid ((lat, lon) # ps) g =
     (case random_uniform 10 25 g of (u, g1) \<Rightarrow>
      case sample_grid ps g1 of (rest, g2) \<Rightarrow>
        ((lat, lon, 27315 / 100 + u) # rest, g2))"

definition grid_points :: "(rat \<times> rat) list" where
  "grid_points =
     concat (map (\<lambda>lat. map (\<lambda>lon. (lat, lon)) (linspace (- 15) (- 5) 20)) (linspace 35 45 20))"

definition copernicus_samples :: "rng \<Rightarrow> error + ((rat \<times> rat \<times> rat) list \<times> rng)" where
  "copernicus_samples g = bind_err (np_random_seed 42 g) (\<lambda>g0. Inr (sample_grid grid_points g0))"

definition copernicus_row :: "string \<Rightarrow> rat \<times> rat \<times> rat \<Rightarrow> cell list" where
  "copernicus_row time s =
     (case s of (lat, lon, k) \<Rightarrow>
        [Str time, Num (round_to 2 lat), Num (round_to 2 lon), Num (round_to 3 k)])"

record scrape =
  sc_files :: "out_file list"
  sc_events :: "event list"
  sc_rng :: rng

definition scrape_copernicus_sst :: "string \<Rightarrow> datetime \<Rightarrow> rng \<Rightarrow> scrape" where
  "scrape_copernicus_sst raw_data_dir now g =
     (case minus_days 3 now of
        Inl e \<Rightarrow>
          \<lparr>sc_files = [],
           sc_events = [ev ''COPERNICUS'' ''SST_SCRAPING'' ''STARTED'',
                        ev_err ''COPERNICUS'' ''SST_SCRAPING'' e],
           sc_rng = g\<rparr>
      | Inr target_date \<Rightarrow>
          (case copernicus_samples g of
             Inl e \<Rightarrow>
               \<lparr>sc_files = [],
                sc_events = [ev ''COPERNICUS'' ''SST_SCRAPING'' ''STARTED'',
                             ev_err ''COPERNICUS'' ''SST_SCRAPING'' e],
                sc_rng = g\<rparr>
           | Inr (samples, g') \<Rightarrow>
               (let df = \<lparr>cols = [''time'', ''latitude'', ''longitude'', ''analysed_sst''],
                          rws = map (copernicus_row (strftime_noon target_date)) samples\<rparr>
                in \<lparr>sc_files =
                       [\<lparr>path = raw_data_dir @ ''/copernicus_sst_''
                                  @ strftime_compact target_date @ ''.csv'',
                         content = df\<rparr>],
                     sc_events = ev ''COPERNICUS'' ''SST_SCRAPING'' ''STARTED''
                                  # log_data_preview df ''COPERNICUS''
                                  @ [ev ''COPERNICUS'' ''SST_SCRAPING'' ''SUCCESS''],
                     sc_rng = g'\<rparr>)))"

section \<open>Notions used by the properties\<close>

text \<open>
  A table has its coordinates when it has the two columns and no row misses a cell under
  them; the coordinates are in range when each of these cells is a number of the range.
  A table is valid input when each coordinate cell is missing or a number of the range.
\<close>

definition has_coordinates :: "frame \<Rightarrow> bool" where
  "has_coordinates df =
     (''latitude'' \<in> set (cols df) \<and> ''longitude'' \<in> set (cols df)
      \<and> list_all (row_complete (coord_positions (cols df))) (rws df))"

fun num_within :: "rat \<Rightarrow> cell \<Rightarrow> bool" where
  "num_within b (Num v) = (- b \<le> v \<and> v \<le> b)"
| "num_within b c = False"

fun null_or_within :: "rat \<Rightarrow> cell \<Rightarrow> bool" where
  "null_or_within b Null = True"
| "null_or_within b c = num_within b c"

definition coordinates_by :: "(rat \<Rightarrow> cell \<Rightarrow> bool) \<Rightarrow> frame \<Rightarrow> bool" where
  "coordinates_by p df =
     list_all (\<lambda>r. list_all (\<lambda>i. p 90 (cell_at r i)) (col_positions (cols df) ''latitude'')
                  \<and> list_all (\<lambda>i. p 180 (cell_at r i)) (col_positions (cols df) ''longitude''))
       (rws df)"

definition coordinates_in_range :: "frame \<Rightarrow> bool" where
  "coordinates_in_range df = coordinates_by num_within df"

definition valid_input :: "frame \<Rightarrow> bool" where
  "valid_input df = coordinates_by null_or_within df"










text \<open>The table of each mapping before its \<open>dropna\<close>, and what is attached to a surviving row.\<close>

definition mapped_frame :: "env \<Rightarrow> source \<Rightarrow> frame \<Rightarrow> error + frame" where
  "mapped_frame e s t =
     (case s of
        Noaa \<Rightarrow> noaa_mapped t
      | Copernicus \<Rightarrow> copernicus_mapped t
      | Argo \<Rightarrow> Inr (argo_mapped e t)
      | Ncei \<Rightarrow> ncei_mapped e t)"

definition source_frame :: "env \<Rightarrow> source \<Rightarrow> frame \<Rightarrow> error + frame" where
  "source_frame e s t =
     (case s of
        Noaa \<Rightarrow> noaa_frame t
      | Copernicus \<Rightarrow> copernicus_frame t
      | Argo \<Rightarrow> argo_frame e t
      | Ncei \<Rightarrow> ncei_frame e t)"

definition out_dir :: "config \<Rightarrow> source \<Rightarrow> string" where
  "out_dir cfg s = (case s of Noaa \<Rightarrow> noaa_dir cfg | Copernicus \<Rightarrow> copernicus_dir cfg
                    | Argo \<Rightarrow> argo_dir cfg | Ncei \<Rightarrow> ncei_dir cfg)"

definition log_name :: "source \<Rightarrow> string" where
  "log_name s = (case s of Noaa \<Rightarrow> ''NOAA'' | Copernicus \<Rightarrow> ''COPERNICUS''
                    | Argo \<Rightarrow> ''ARGO'' | Ncei \<Rightarrow> ''NCEI'')"

definition persisted_row :: "source \<Rightarrow> cell list \<Rightarrow> cell list" where
  "persisted_row s r = (case s of Argo \<Rightarrow> r @ [Null] | _ \<Rightarrow> r)"

definition written_rows :: "out_file list \<Rightarrow> cell list list" where
  "written_rows files = concat (map (\<lambda>f. rws (content f)) files)"

text \<open>A small table used for concrete evaluations.\<close>

definition demo_frame :: frame where
  "demo_frame = \<lparr>cols = [''latitude''],
     rws = [[Num 1], [Num 2], [Num 3], [Num 4], [Num 5]]\<rparr>"

definition demo_config :: config where
  "demo_config = \<lparr>max_rows_per_file = 9000, noaa_dir = ''processed/noaa'',
     copernicus_dir = ''processed/copernicus'', argo_dir = ''processed/argo'',
     ncei_dir = ''processed/ncei''\<rparr>"

definition kelvin_frame :: frame where
  "kelvin_frame = \<lparr>cols = [''time'', ''latitude'', ''longitude'', ''analysed_sst''],
     rws = [[Str ''2024-01-01T12:00:00Z'', Num 40, Num (-10), Num 290],
            [Str ''2024-01-01T12:00:00Z'', Null, Num (-10), Num 291],
            [Str ''2024-01-01T12:00:00Z'', Num 41, Num (-9), Null],
            [Null, Num 42, Num (-8), Num 289]]\<rparr>"

definition celsius_frame :: frame where
  "celsius_frame = \<lparr>cols = [''time'', ''latitude'', ''longitude'', ''analysed_sst''],
     rws = [[Str ''2024-01-01T12:00:00Z'', Num 40, Num (-10), Num 17],
            [Str ''2024-01-01T12:00:00Z'', Num 41, Null, Num 18]]\<rparr>"

definition demo_env :: env where
  "demo_env = \<lparr>str_to_num = (\<lambda>s. None), today = ''2024-01-04''\<rparr>"

definition argo_table :: frame where
  "argo_table = \<lparr>cols = [],
     rws = [[Str ''aoml/1900722/profiles/BD1900722_001.nc'', Str ''20061022021624'', Num 40,
             Num (-10), Str ''A'', Num 846, Str ''AO'', Str ''20200101000000''],
            [Str ''aoml/1900722/profiles/BD1900722_002.nc'', Str ''2006-11-01'', Num 41,
             Num (-11), Str ''A'', Num 846, Str ''AO'', Str ''20200101000000''],
            [Str ''aoml/1900722/profiles/BD1900722_003.nc'', Str ''20061112021624'', Null,
             Num (-11), Str ''A'', Num 846, Str ''AO'', Str ''20200101000000'']]\<rparr>"

definition ncei_table :: frame where
  "ncei_table = \<lparr>cols = [],
     rws = [[Str ''ACW00011604'', Num 17, Num (-61), Num 10, Null, Str ''ST JOHNS''],
            [Str ''US1CAAL0001'', Num 37, Null, Num 5, Str ''CA'', Str ''BERKELEY''],
            [Str ''US1CAAL0002'', Num 38, Num (-122), Null, Str ''CA'', Null]]\<rparr>"

definition argo_file :: raw_file where
  "argo_file = \<lparr>file_name = ''argo_bio_profile_index.txt'', table = Inr argo_table\<rparr>"

text \<open>
  A station file without a state code: stations outside the United States and Canada
  have a blank state column, which is read as a column of missing values.
\<close>

definition ncei_blank_table :: frame where
  "ncei_blank_table = \<lparr>cols = [],
     rws = [[Str ''ACW00011604'', Num 17, Num (-61), Num 10, Null, Str ''ST JOHNS''],
            [Str ''AE000041196'', Num 25, Num 55, Num 34, Null, Str ''SHARJAH'']]\<rparr>"

definition ncei_blank_file :: raw_file where
  "ncei_blank_file = \<lparr>file_name = ''ghcnd-stations.txt'', table = Inr ncei_blank_table\<rparr>"

definition argo_pre :: frame where
  "argo_pre =
     \<lparr>cols = [''timestamp'', ''latitude'', ''longitude'', ''ocean'', ''prof_type'',
              ''institution''],
      rws = [[Time 2006 10 22 2 16 24, Num 40, Num (-10), Str ''A'', Num 846, Str ''AO''],
             [Null, Num 41, Num (-11), Str ''A'', Num 846, Str ''AO''],
             [Time 2006 11 12 2 16 24, Null, Num (-11), Str ''A'', Num 846, Str ''AO'']]\<rparr>"

definition junk_frame :: frame where
  "junk_frame = \<lparr>cols = [''a'', ''b''], rws = [[Num 1, Num 2]]\<rparr>"

definition junk_noaa_file :: raw_file where
  "junk_noaa_file = \<lparr>file_name = ''noaa_sst.csv'', table = Inr junk_frame\<rparr>"

definition kelvin_noaa_file :: raw_file where
  "kelvin_noaa_file = \<lparr>file_name = ''JPL_sst.csv'', table = Inr kelvin_frame\<rparr>"

definition unknown_file :: raw_file where
  "unknown_file = \<lparr>file_name = ''README.txt'', table = Inr junk_frame\<rparr>"

definition kelvin_copernicus_file :: raw_file where
  "kelvin_copernicus_file = \<lparr>file_name = ''copernicus_sst_20240101.csv'', table = Inr kelvin_frame\<rparr>"

definition converted_rows :: "cell list list" where
  "converted_rows =
     [[Str ''2024-01-01T12:00:00Z'', Num 40, Num (- 10), Num (337 / 20)],
      [Str ''2024-01-01T12:00:00Z'', Num 41, Num (- 9), Null],
      [Null, Num 42, Num (- 8), Num (317 / 20)]]"

definition morning :: datetime where
  "morning = \<lparr>dt_year = 2024, dt_month = 3, dt_day = 2, dt_hour = 9, dt_minute = 30,
              dt_second = 0\<rparr>"

definition evening :: datetime where
  "evening = \<lparr>dt_year = 2024, dt_month = 3, dt_day = 2, dt_hour = 23, dt_minute = 59,
              dt_second = 59\<rparr>"

definition next_morning :: datetime where
  "next_morning = \<lparr>dt_year = 2024, dt_month = 3, dt_day = 3, dt_hour = 9, dt_minute = 30,
              dt_second = 0\<rparr>"

definition fresh_rng :: rng where
  "fresh_rng = \<lparr>mt_key = [], mt_rest = []\<rparr>"

definition used_rng :: rng where
  "used_rng = \<lparr>mt_key = replicate 624 7, mt_rest = [1, 2, 3]\<rparr>"


section \<open>Properties of the chunked writer\<close>

lemma ceil_mult_ge:
  assumes "0 < (b::nat)"
  shows "n \<le> ((n + b - 1) div b) * b"
proof -
  have "(n + b - 1) = ((n + b - 1) div b) * b + (n + b - 1) mod b" by simp
  moreover have "(n + b - 1) mod b \<le> b - 1" using assms
    by (metis Suc_pred' less_Suc_eq_le mod_less_divisor)
  ultimately show ?thesis using assms by linarith
qed

lemma chunk_size_bound:
  assumes "0 < b" "k = (n + b - 1) div (b::nat)" "0 < n"
  shows "0 < k" "n div k \<le> b" "0 < n mod k \<Longrightarrow> n div k + 1 \<le> b"
proof -
  have nk: "n \<le> k * b" using ceil_mult_ge [OF assms(1), of n] assms(2) by simp
  show k: "0 < k" using nk assms(3) by (cases k) auto
  have "n div k \<le> (k * b) div k" using nk by (rule div_le_mono)
  then show "n div k \<le> b" using k by simp
  assume m: "0 < n mod k"
  have "n = (n div k) * k + n mod k" by simp
  then have "(n div k) * k < k * b" using m nk by linarith
  then have "n div k < b" using k by (simp add: mult.commute)
  then show "n div k + 1 \<le> b" by simp
qed

lemma length_split_sizes: "length (split_sizes ss xs) = length ss"
  by (induction ss arbitrary: xs) auto

lemma concat_split_sizes: "length xs \<le> sum_list ss \<Longrightarrow> concat (split_sizes ss xs) = xs"
  by (induction ss arbitrary: xs) auto

lemma split_sizes_bound:
  "\<forall>s\<in>set ss. s \<le> m \<Longrightarrow> c \<in> set (split_sizes ss xs) \<Longrightarrow> length c \<le> m"
  by (induction ss arbitrary: xs) auto

lemma map_snd_enumerate:
  "map (\<lambda>(i, chunk). f chunk) (enumerate_from i cs) = map f cs"
  by (induction cs arbitrary: i) auto

lemma length_enumerate_from: "length (enumerate_from i cs) = length cs"
  by (induction cs arbitrary: i) auto

lemma sizes_sum: "0 < k \<Longrightarrow>
  sum_list (replicate (n mod k) (n div k + 1) @ replicate (k - n mod k) (n div k)) = (n::nat)"
proof -
  assume k: "0 < k"
  have "n mod k \<le> k" using k by (simp add: less_imp_le)
  then have "(n mod k) * (n div k + 1) + (k - n mod k) * (n div k) = n mod k + k * (n div k)"
    by (simp add: algebra_simps diff_mult_distrib) 
  then show ?thesis by (simp add: sum_list_replicate)
qed

lemma ceil_div_nat: "0 < b \<Longrightarrow> nat ((int n + b - 1) div b) = (n + nat b - 1) div nat b"
  by (smt (verit) Suc_nat_eq_nat_zadd1 add.commute add_diff_cancel_right' diff_Suc_1 int_nat_eq nat_div_distrib nat_int of_nat_0_le_iff of_nat_add zdiv_int)

lemma ceil_div_ceiling:
  assumes "0 < (b::int)"
  shows "(n + b - 1) div b = \<lceil>real_of_int n / real_of_int b\<rceil>"
proof -
  let ?z = "(n + b - 1) div b"
  have d: "n + b - 1 = ?z * b + (n + b - 1) mod b" by simp
  have m0: "0 \<le> (n + b - 1) mod b" and m1: "(n + b - 1) mod b < b" using assms by auto
  have lo: "n \<le> ?z * b" using d m1 by linarith
  have hi: "?z * b < n + b" using d m0 by linarith
  have "real_of_int n \<le> real_of_int (?z * b)" using lo by linarith
  then have 1: "real_of_int n / real_of_int b \<le> real_of_int ?z"
    using assms by (simp add: pos_divide_le_eq)
  have "(?z - 1) * b < n" using hi by (simp add: algebra_simps)
  then have "real_of_int ((?z - 1) * b) < real_of_int n" by (simp only: of_int_less_iff)
  then have 2: "real_of_int ?z - 1 < real_of_int n / real_of_int b"
    using assms by (simp add: pos_less_divide_eq)
  show ?thesis using 1 2 by (simp add: ceiling_unique)
qed

lemma array_split_props:
  assumes "0 < b" "0 < length xs" "k = (length xs + b - 1) div b"
  shows "\<exists>cs. array_split xs (int k) = Inr cs \<and> length cs = k \<and> concat cs = xs
     \<and> (\<forall>c\<in>set cs. length c \<le> b)"
proof -
  let ?n = "length xs"
  have k: "0 < k" and e: "?n div k \<le> b" and e1: "0 < ?n mod k \<Longrightarrow> ?n div k + 1 \<le> b"
    using chunk_size_bound [OF assms(1) assms(3) assms(2)] by auto
  let ?ss = "replicate (?n mod k) (?n div k + 1) @ replicate (k - ?n mod k) (?n div k)"
  have a: "array_split xs (int k) = Inr (split_sizes ?ss xs)"
    using k by (simp add: array_split_def Let_def)
  have l: "length (split_sizes ?ss xs) = k" using k
    by (simp add: length_split_sizes less_imp_le)
  have c: "concat (split_sizes ?ss xs) = xs"
    by (rule concat_split_sizes) (simp only: sizes_sum [OF k] order_refl)
  have "\<forall>s\<in>set ?ss. s \<le> b" using e e1 by auto
  then have "\<forall>c\<in>set (split_sizes ?ss xs). length c \<le> b"
    using split_sizes_bound by blast
  with a l c show ?thesis by blast
qed

lemma enumerate_from_set: "(j, c) \<in> set (enumerate_from i cs) \<Longrightarrow> c \<in> set cs"
  by (induction cs arbitrary: i) auto

lemma save_chunked_total:
  assumes b: "0 < b"
  shows "\<exists>files evs.
      save_chunked b df original_file output_dir source_prefix = Inr (files, evs)
    \<and> (length (rws df) = 0 \<longrightarrow> length files = 0)
    \<and> (0 < length (rws df) \<and> int (length (rws df)) \<le> b \<longrightarrow> length files = 1)
    \<and> (b < int (length (rws df)) \<longrightarrow>
          int (length files) = \<lceil>real (length (rws df)) / real_of_int b\<rceil>)
    \<and> (\<forall>f\<in>set files. int (length (rws (content f))) \<le> b)
    \<and> (\<forall>f\<in>set files. cols (content f) = cols df)
    \<and> concat (map (\<lambda>f. rws (content f)) files) = rws df"
proof -
  let ?n = "length (rws df)"
  consider (empty) "?n = 0" | (single) "0 < ?n" "int ?n \<le> b" | (many) "b < int ?n"
    by linarith
  then show ?thesis
  proof cases
    case empty
    then show ?thesis using b by (simp add: save_chunked_def)
  next
    case single
    then show ?thesis by (simp add: save_chunked_def Let_def)
  next
    case many
    let ?k = "(?n + nat b - 1) div nat b"
    have n0: "0 < ?n" using many b by linarith
    have nb: "0 < nat b" using b by simp
    obtain cs where cs: "array_split (rws df) (int ?k) = Inr cs" "length cs = ?k"
        "concat cs = rws df" "\<forall>c\<in>set cs. length c \<le> nat b"
      using array_split_props [OF nb n0 refl] by blast
    have kk: "(int ?n + b - 1) div b = int ?k"
    proof -
      have "0 \<le> int ?n + b - 1" using b by linarith
      then have "0 \<le> (int ?n + b - 1) div b" using b by (simp add: pos_imp_zdiv_nonneg_iff)
      then show ?thesis using ceil_div_nat [OF b, of ?n] by linarith
    qed
    have ce: "int ?k = \<lceil>real ?n / real_of_int b\<rceil>"
      using ceil_div_ceiling [OF b, of "int ?n"] kk by simp
    let ?files = "map (\<lambda>(i, chunk).
                         \<lparr>path = part_name output_dir source_prefix (stem original_file) i,
                          content = \<lparr>cols = cols df, rws = chunk\<rparr>\<rparr>)
                       (enumerate_from 1 cs)"
    have sc: "save_chunked b df original_file output_dir source_prefix
         = Inr (?files, ev ''PROCESSOR'' ''SAVE'' ''INFO''
                     # map (\<lambda>c. ev ''PROCESSOR'' ''SAVE'' ''INFO'') cs)"
      using many b n0 cs(1) kk by (simp add: save_chunked_def Let_def)
    have len: "length ?files = ?k" using cs(2) by (simp add: length_enumerate_from)
    have r: "map (\<lambda>f. rws (content f)) ?files = cs"
      using map_snd_enumerate [of "\<lambda>c. c" 1 cs] by (simp add: comp_def case_prod_unfold)
    have mem: "\<And>f. f \<in> set ?files \<Longrightarrow>
        \<exists>c\<in>set cs. content f = \<lparr>cols = cols df, rws = c\<rparr>"
      using enumerate_from_set by fastforce
    have bound: "\<forall>f\<in>set ?files. int (length (rws (content f))) \<le> b"
    proof
      fix f assume "f \<in> set ?files"
      then obtain c where "c \<in> set cs" "content f = \<lparr>cols = cols df, rws = c\<rparr>"
        using mem by blast
      then show "int (length (rws (content f))) \<le> b" using cs(4) b by auto
    qed
    have colsq: "\<forall>f\<in>set ?files. cols (content f) = cols df"
      using mem by fastforce
    show ?thesis
      apply (rule exI [of _ ?files])
      apply (rule exI)
      apply (rule conjI [OF sc])
      using many n0 len ce bound colsq r cs(3) by simp
  qed
qed




section \<open>Properties of the classification\<close>

text \<open>
  Claim C7. The source of a raw file is decided on the lower-cased name by substring,
  in the order noaa/jpl, copernicus, argo, ghcnd/stations; a name with substrings of two
  sources gets the earlier one, and a name with none of them has no source.
\<close>

theorem classify_priority:
  "classify name = classify (lower name)
   \<and> (contains ''noaa'' (lower name) \<or> contains ''jpl'' (lower name)
        \<longrightarrow> classify name = Some Noaa)
   \<and> (\<not> (contains ''noaa'' (lower name) \<or> contains ''jpl'' (lower name))
        \<and> contains ''copernicus'' (lower name)
        \<longrightarrow> classify name = Some Copernicus)
   \<and> (\<not> (contains ''noaa'' (lower name) \<or> contains ''jpl'' (lower name))
        \<and> \<not> contains ''copernicus'' (lower name) \<and> contains ''argo'' (lower name)
        \<longrightarrow> classify name = Some Argo)
   \<and> (\<not> (contains ''noaa'' (lower name) \<or> contains ''jpl'' (lower name))
        \<and> \<not> contains ''copernicus'' (lower name) \<and> \<not> contains ''argo'' (lower name)
        \<and> (contains ''ghcnd'' (lower name) \<or> contains ''stations'' (lower name))
        \<longrightarrow> classify name = Some Ncei)
   \<and> (\<not> (contains ''noaa'' (lower name) \<or> contains ''jpl'' (lower name))
        \<and> \<not> contains ''copernicus'' (lower name) \<and> \<not> contains ''argo'' (lower name)
        \<and> \<not> (contains ''ghcnd'' (lower name) \<or> contains ''stations'' (lower name))
        \<longrightarrow> classify name = None)"
proof -
  have "lower (lower name) = lower name"
    by (simp add: lower_def lower_char_def)
  then show ?thesis by (simp add: classify_def Let_def)
qed

theorem classify_priority_witness:
  "classify ''Copernicus_JPL_argo_stations.CSV'' = Some Noaa
   \<and> classify ''ARGO_Copernicus_ghcnd.csv'' = Some Copernicus
   \<and> classify ''ghcnd-stations_Argo.txt'' = Some Argo
   \<and> classify ''GHCND_Stations.txt'' = Some Ncei
   \<and> classify ''readme.txt'' = None"
proof -
  have 1: "contains ''noaa'' (lower ''Copernicus_JPL_argo_stations.CSV'')
         \<or> contains ''jpl'' (lower ''Copernicus_JPL_argo_stations.CSV'')"
    by code_simp
  have 2: "\<not> (contains ''noaa'' (lower ''ARGO_Copernicus_ghcnd.csv'')
            \<or> contains ''jpl'' (lower ''ARGO_Copernicus_ghcnd.csv''))
         \<and> contains ''copernicus'' (lower ''ARGO_Copernicus_ghcnd.csv'')"
    by code_simp
  have 3: "\<not> (contains ''noaa'' (lower ''ghcnd-stations_Argo.txt'')
            \<or> contains ''jpl'' (lower ''ghcnd-stations_Argo.txt''))
         \<and> \<not> contains ''copernicus'' (lower ''ghcnd-stations_Argo.txt'')
         \<and> contains ''argo'' (lower ''ghcnd-stations_Argo.txt'')"
    by code_simp
  have 4: "\<not> (contains ''noaa'' (lower ''GHCND_Stations.txt'')
            \<or> contains ''jpl'' (lower ''GHCND_Stations.txt''))
         \<and> \<not> contains ''copernicus'' (lower ''GHCND_Stations.txt'')
         \<and> \<not> contains ''argo'' (lower ''GHCND_Stations.txt'')
         \<and> (contains ''ghcnd'' (lower ''GHCND_Stations.txt'')
              \<or> contains ''stations'' (lower ''GHCND_Stations.txt''))"
    by code_simp
  have 5: "\<not> (contains ''noaa'' (lower ''readme.txt'') \<or> contains ''jpl'' (lower ''readme.txt''))
         \<and> \<not> contains ''copernicus'' (lower ''readme.txt'')
         \<and> \<not> contains ''argo'' (lower ''readme.txt'')
         \<and> \<not> (contains ''ghcnd'' (lower ''readme.txt'')
              \<or> contains ''stations'' (lower ''readme.txt''))"
    by code_simp
  have a: "classify ''Copernicus_JPL_argo_stations.CSV'' = Some Noaa"
    using conjunct1 [OF conjunct2 [OF classify_priority [of "''Copernicus_JPL_argo_stations.CSV''"]]] 1
    by (rule mp)
  have b: "classify ''ARGO_Copernicus_ghcnd.csv'' = Some Copernicus"
    using conjunct1 [OF conjunct2 [OF conjunct2 [OF classify_priority [of "''ARGO_Copernicus_ghcnd.csv''"]]]] 2
    by (rule mp)
  have c: "classify ''ghcnd-stations_Argo.txt'' = Some Argo"
    using conjunct1 [OF conjunct2 [OF conjunct2 [OF conjunct2
           [OF classify_priority [of "''ghcnd-stations_Argo.txt''"]]]]] 3
    by (rule mp)
  have d: "classify ''GHCND_Stations.txt'' = Some Ncei"
    using conjunct1 [OF conjunct2 [OF conjunct2 [OF conjunct2 [OF conjunct2
           [OF classify_priority [of "''GHCND_Stations.txt''"]]]]]] 4
    by (rule mp)
  have e: "classify ''readme.txt'' = None"
    using conjunct2 [OF conjunct2 [OF conjunct2 [OF conjunct2 [OF conjunct2
           [OF classify_priority [of "''readme.txt''"]]]]]] 5
    by (rule mp)
  show ?thesis using a b c d e by (intro conjI)
qed


section \<open>Unit correction\<close>

lemma length_pad_row: "length (pad_row n r) = n"
  by (simp add: pad_row_def)

lemma column_map_column:
  assumes "i < length (cols r)"
  shows "column (map_column i f r) i = map f (column r i)"
  using assms by (simp add: column_def map_column_def cell_at_def length_pad_row comp_def)

lemma cols_map_column: "cols (map_column i f r) = cols r"
  by (simp add: map_column_def)

lemma col_positions_single:
  assumes "col_positions cs c = [i]"
  shows "i < length cs" and "\<And>j. j < length cs \<Longrightarrow> (cs ! j = c) = (j = i)"
proof -
  have s: "set (col_positions cs c) = {i}" using assms by simp
  have m: "\<And>j. j \<in> set (col_positions cs c) \<longleftrightarrow> j < length cs \<and> cs ! j = c"
    by (auto simp: col_positions_def)
  show "i < length cs" using s m by blast
  show "\<And>j. j < length cs \<Longrightarrow> (cs ! j = c) = (j = i)" using s m by blast
qed

lemma rename_single:
  assumes "col_positions (cols r) ''sea_surface_temperature'' = [i]"
  shows "cols (rename_cols sst_rename r) = (cols r)[i := ''sst_celsius'']"
proof (rule nth_equalityI)
  show "length (cols (rename_cols sst_rename r)) = length ((cols r)[i := ''sst_celsius''])"
    by (simp add: rename_cols_def)
next
  fix j assume "j < length (cols (rename_cols sst_rename r))"
  then have j: "j < length (cols r)" by (simp add: rename_cols_def)
  show "cols (rename_cols sst_rename r) ! j = (cols r)[i := ''sst_celsius''] ! j"
    using j col_positions_single(2) [OF assms j]
    by (auto simp: rename_cols_def sst_rename_def nth_list_update)
qed

lemma rws_rename_cols: "rws (rename_cols m r) = rws r"
  by (simp add: rename_cols_def)

lemma column_rename_cols: "column (rename_cols m r) i = column r i"
  by (simp add: column_def rws_rename_cols)

text \<open>
  The unit correction of the two mappings on a table with one temperature column whose
  mean exists: above 200 both subtract 273.15 from every value, and only the NOAA mapping
  renames the column; at 200 or below both leave the table as it is.
\<close>

lemma unit_correction_by_mapping:
  assumes "col_positions (cols r) ''sea_surface_temperature'' = [i]"
      and "series_mean (column r i) = Inr (Some m)"
  shows "200 < m \<longrightarrow>
           (\<exists>r'. noaa_units r = Inr r' \<and> cols r' = (cols r)[i := ''sst_celsius'']
                 \<and> column r' i = map minus_273_15 (column r i))
         \<and> (\<exists>r'. copernicus_units r = Inr r' \<and> cols r' = cols r
                 \<and> column r' i = map minus_273_15 (column r i))"
    and "m \<le> 200 \<longrightarrow> noaa_units r = Inr r \<and> copernicus_units r = Inr r"
proof -
  have i: "i < length (cols r)" using col_positions_single(1) [OF assms(1)] .
  then have mem: "''sea_surface_temperature'' \<in> set (cols r)"
    using col_positions_single(2) [OF assms(1) i] by (metis nth_mem)
  show "m \<le> 200 \<longrightarrow> noaa_units r = Inr r \<and> copernicus_units r = Inr r"
    using assms mem
    by (simp add: noaa_units_def copernicus_units_def bind_err_def exceeds_200_def)
  show "200 < m \<longrightarrow>
           (\<exists>r'. noaa_units r = Inr r' \<and> cols r' = (cols r)[i := ''sst_celsius'']
                 \<and> column r' i = map minus_273_15 (column r i))
         \<and> (\<exists>r'. copernicus_units r = Inr r' \<and> cols r' = cols r
                 \<and> column r' i = map minus_273_15 (column r i))"
  proof
    assume k: "200 < m"
    let ?c = "map_column i minus_273_15 r"
    have n: "noaa_units r = Inr (rename_cols sst_rename ?c)"
      using assms mem k by (simp add: noaa_units_def bind_err_def exceeds_200_def)
    have c: "copernicus_units r = Inr ?c"
      using assms mem k by (simp add: copernicus_units_def bind_err_def exceeds_200_def)
    have p: "col_positions (cols ?c) ''sea_surface_temperature'' = [i]"
      using assms(1) by (simp add: cols_map_column)
    have "cols (rename_cols sst_rename ?c) = (cols r)[i := ''sst_celsius'']"
      using rename_single [OF p] by (simp add: cols_map_column)
    moreover have "column (rename_cols sst_rename ?c) i = map minus_273_15 (column r i)"
      by (simp add: column_rename_cols column_map_column [OF i])
    ultimately show "(\<exists>r'. noaa_units r = Inr r' \<and> cols r' = (cols r)[i := ''sst_celsius'']
                 \<and> column r' i = map minus_273_15 (column r i))
         \<and> (\<exists>r'. copernicus_units r = Inr r' \<and> cols r' = cols r
                 \<and> column r' i = map minus_273_15 (column r i))"
      using n c by (simp add: cols_map_column column_map_column [OF i])
  qed
qed

lemma copernicus_frame_kelvin:
  "copernicus_frame kelvin_frame = Inr
     \<lparr>cols = [''timestamp'', ''latitude'', ''longitude'', ''sea_surface_temperature''],
      rws = converted_rows\<rparr>"
  by code_simp

lemma noaa_frame_kelvin:
  "noaa_frame kelvin_frame = Inr
     \<lparr>cols = [''timestamp'', ''latitude'', ''longitude'', ''sst_celsius''],
      rws = converted_rows\<rparr>"
  by code_simp

lemma save_chunked_small:
  "rs \<noteq> [] \<Longrightarrow> int (length rs) \<le> b \<Longrightarrow>
   save_chunked b \<lparr>cols = cs, rws = rs\<rparr> orig dir pre
     = Inr ([\<lparr>path = single_name dir pre (stem orig), content = \<lparr>cols = cs, rws = rs\<rparr>\<rparr>],
            [ev ''PROCESSOR'' ''SAVE'' ''INFO''])"
  by (simp add: save_chunked_def Let_def)

lemma stems: "stem ''copernicus_sst_20240101.csv'' = ''copernicus_sst_20240101''"
  "stem ''JPL_sst.csv'' = ''JPL_sst''"
  by code_simp+

text \<open>
  Claim C2. On a table whose temperatures have a mean above 200 both mappings write every
  temperature minus 273.15, but the renaming to the Celsius name is done by the NOAA
  mapping only: the Copernicus mapping writes the converted values under the unchanged
  label \<open>sea_surface_temperature\<close>.
\<close>

theorem copernicus_kelvin_keeps_label:
  "fst (process_copernicus_file demo_config kelvin_copernicus_file)
     = [\<lparr>path = ''processed/copernicus/copernicus_copernicus_sst_20240101_processed.csv'',
         content =
           \<lparr>cols = [''timestamp'', ''latitude'', ''longitude'', ''sea_surface_temperature''],
            rws = converted_rows\<rparr>\<rparr>]
   \<and> fst (process_noaa_file demo_config kelvin_noaa_file)
     = [\<lparr>path = ''processed/noaa/noaa_JPL_sst_processed.csv'',
         content =
           \<lparr>cols = [''timestamp'', ''latitude'', ''longitude'', ''sst_celsius''],
            rws = converted_rows\<rparr>\<rparr>]"
proof -
  have n: "converted_rows \<noteq> []" "int (length converted_rows) \<le> 9000"
    by (simp_all add: converted_rows_def)
  show ?thesis
    by (simp add: process_copernicus_file_def process_noaa_file_def kelvin_copernicus_file_def
          kelvin_noaa_file_def demo_config_def bind_err_def copernicus_frame_kelvin
          noaa_frame_kelvin save_result_def then_save_def save_chunked_small [OF n]
          mapping_result_def
          single_name_def stems)
qed


section \<open>Rows without coordinates\<close>

lemma bind_err_Inr_iff:
  "bind_err x f = Inr r \<longleftrightarrow> (\<exists>v. x = Inr v \<and> f v = Inr r)"
  by (cases x) (auto simp: bind_err_def)

lemma dropna_Inr:
  assumes "dropna names df = Inr r"
  shows "set names \<subseteq> set (cols df)"
    and "r = df\<lparr>rws := filter (row_complete (concat (map (col_positions (cols df)) names))) (rws df)\<rparr>"
proof -
  have f: "filter (\<lambda>c. c \<notin> set (cols df)) names = []"
    using assms by (cases "filter (\<lambda>c. c \<notin> set (cols df)) names") (auto simp: dropna_def)
  then show "set names \<subseteq> set (cols df)" by (auto simp: filter_empty_conv)
  show "r = df\<lparr>rws := filter (row_complete (concat (map (col_positions (cols df)) names))) (rws df)\<rparr>"
    using assms f by (simp add: dropna_def)
qed

lemma dropna_ok:
  assumes "set names \<subseteq> set (cols df)"
  shows "dropna names df = Inr (df\<lparr>rws := filter (row_complete (concat (map (col_positions (cols df)) names))) (rws df)\<rparr>)"
proof -
  have "filter (\<lambda>c. c \<notin> set (cols df)) names = []" using assms by (auto simp: filter_empty_conv)
  then show ?thesis by (simp add: dropna_def)
qed

lemma dropna_KeyError:
  assumes "\<not> set names \<subseteq> set (cols df)"
  shows "\<exists>c. dropna names df = Inl (KeyError c)"
proof -
  have "filter (\<lambda>c. c \<notin> set (cols df)) names \<noteq> []" using assms by (auto simp: filter_empty_conv)
  then show ?thesis by (cases "filter (\<lambda>c. c \<notin> set (cols df)) names") (auto simp: dropna_def)
qed

lemma set_split_sizes: "c \<in> set (split_sizes ss xs) \<Longrightarrow> set c \<subseteq> set xs"
proof (induction ss arbitrary: xs)
  case Nil then show ?case by simp
next
  case (Cons s ss)
  then show ?case using set_take_subset [of s xs] set_drop_subset [of s xs] by fastforce
qed

lemma array_split_subset: "array_split xs k = Inr cs \<Longrightarrow> c \<in> set cs \<Longrightarrow> set c \<subseteq> set xs"
  by (auto simp: array_split_def Let_def split: if_splits dest: set_split_sizes)

lemma save_chunked_subset:
  assumes "save_chunked b df orig dir pre = Inr (files, evs)" "f \<in> set files"
  shows "cols (content f) = cols df \<and> set (rws (content f)) \<subseteq> set (rws df)"
proof (cases "length (rws df) = 0 \<or> int (length (rws df)) \<le> b")
  case True
  then show ?thesis using assms by (auto simp: save_chunked_def Let_def split: if_splits)
next
  case False
  then obtain cs where cs: "array_split (rws df) ((int (length (rws df)) + b - 1) div b) = Inr cs"
    and fs: "files = map (\<lambda>(i, chunk).
                         \<lparr>path = part_name dir pre (stem orig) i,
                          content = \<lparr>cols = cols df, rws = chunk\<rparr>\<rparr>)
                       (enumerate_from 1 cs)"
    using assms(1) by (auto simp: save_chunked_def Let_def split: if_splits sum.splits)
  from assms(2) fs obtain i c where "(i, c) \<in> set (enumerate_from 1 cs)"
     "content f = \<lparr>cols = cols df, rws = c\<rparr>" by auto
  then show ?thesis using array_split_subset [OF cs] enumerate_from_set by fastforce
qed

lemma fst_mapping_result:
  "fst (mapping_result src r) = (case fst r of Inl e \<Rightarrow> [] | Inr files \<Rightarrow> files)"
  by (cases r) (auto simp: mapping_result_def split: sum.splits)

lemma fst_save_result:
  "fst (save_result b orig dir pre src df)
     = (case save_chunked b df orig dir pre of Inl e \<Rightarrow> Inl e | Inr (files, evs) \<Rightarrow> Inr files)"
  by (auto simp: save_result_def split: sum.splits)

lemma argo_positions:
  "coord_positions [''timestamp'', ''latitude'', ''longitude'', ''ocean'', ''prof_type'',
              ''institution''] = [Suc 0, 2]"
  "coord_positions [''timestamp'', ''latitude'', ''longitude'', ''ocean'', ''prof_type'',
              ''institution'', ''temperature_celsius''] = [Suc 0, 2]"
  by (simp_all add: coord_positions_def col_positions_def upt_conv_Cons)

lemma ncei_positions:
  "coord_positions [''station_id'', ''timestamp'', ''latitude'', ''longitude'', ''elevation_m'',
                    ''country'', ''station_name''] = [2, 3]"
  by (simp add: coord_positions_def col_positions_def upt_conv_Cons)

lemma dropna_has_coordinates:
  assumes "dropna [''latitude'', ''longitude''] df = Inr r"
  shows "has_coordinates r"
    and "cols r = cols df"
    and "rws r = filter (row_complete (coord_positions (cols df))) (rws df)"
  using dropna_Inr [OF assms]
  by (simp_all add: has_coordinates_def coord_positions_def list_all_iff)

lemma dropna_coords_ok:
  assumes "''latitude'' \<in> set (cols df)" "''longitude'' \<in> set (cols df)"
  shows "dropna [''latitude'', ''longitude''] df
           = Inr (df\<lparr>rws := filter (row_complete (coord_positions (cols df))) (rws df)\<rparr>)"
  using dropna_ok [of "[''latitude'', ''longitude'']" df] assms
  by (simp add: coord_positions_def)

lemma length_argo_row: "length (argo_row e r) = 6"
  by (simp add: argo_row_def)

lemma pad_row_same: "length r = n \<Longrightarrow> pad_row n r = r"
  by (simp add: pad_row_def)

lemma cell_at_append: "i < length r \<Longrightarrow> cell_at (r @ x) i = cell_at r i"
  by (simp add: cell_at_def nth_append)

lemma row_complete_append:
  "\<forall>i\<in>set ps. i < length r \<Longrightarrow> row_complete ps (r @ x) = row_complete ps r"
  by (induction ps) (auto simp: row_complete_def cell_at_append)

lemma argo_mapped_rows:
  assumes "r \<in> set (rws (argo_mapped e t))"
  shows "pad_row 6 r = r" and "row_complete [Suc 0, 2] (r @ x) = row_complete [Suc 0, 2] r"
proof -
  have l: "length r = 6" using assms by (auto simp: argo_mapped_def length_argo_row)
  show "pad_row 6 r = r" using l by (simp add: pad_row_def)
  show "row_complete [Suc 0, 2] (r @ x) = row_complete [Suc 0, 2] r"
    by (rule row_complete_append) (simp add: l)
qed

lemma persisted_row_simps:
  "map (persisted_row Noaa) rs = rs" "map (persisted_row Copernicus) rs = rs"
  "map (persisted_row Ncei) rs = rs" "persisted_row Argo = (\<lambda>r. r @ [Null])"
  by (induction rs) (simp_all add: persisted_row_def fun_eq_iff)

lemma argo_frame_eq:
  "argo_frame e t =
     Inr \<lparr>cols = [''timestamp'', ''latitude'', ''longitude'', ''ocean'', ''prof_type'',
                 ''institution'', ''temperature_celsius''],
          rws = map (\<lambda>r. r @ [Null])
                  (filter (row_complete [Suc 0, 2]) (rws (argo_mapped e t)))\<rparr>"
proof -
  let ?pre = "argo_mapped e t"
  have c: "cols ?pre = [''timestamp'', ''latitude'', ''longitude'', ''ocean'', ''prof_type'',
              ''institution'']" by (simp add: argo_mapped_def)
  have d: "dropna [''latitude'', ''longitude''] ?pre
        = Inr (?pre\<lparr>rws := filter (row_complete [Suc 0, 2]) (rws ?pre)\<rparr>)"
    using dropna_coords_ok [of ?pre] by (simp add: c argo_positions)
  have m: "map (\<lambda>r. pad_row 6 r @ [Null]) (filter (row_complete [Suc 0, 2]) (rws ?pre))
      = map (\<lambda>r. r @ [Null]) (filter (row_complete [Suc 0, 2]) (rws ?pre))"
    by (rule map_cong) (auto simp: argo_mapped_rows(1))
  have "argo_frame e t = Inr \<lparr>cols = cols ?pre @ [''temperature_celsius''],
      rws = map (\<lambda>r. pad_row (length (cols ?pre)) r @ [Null])
              (filter (row_complete [Suc 0, 2]) (rws ?pre))\<rparr>"
    by (simp add: argo_frame_def d bind_err_def add_null_col_def)
  also have "length (cols ?pre) = 6" by (simp add: c)
  finally show ?thesis by (simp only: m c) simp
qed

lemma has_coordinates_source_frame:
  assumes "source_frame e s t = Inr r"
  shows "has_coordinates r"
proof (cases s)
  case Noaa
  then show ?thesis using assms
    by (auto simp: source_frame_def noaa_frame_def bind_err_Inr_iff dest: dropna_has_coordinates(1))
next
  case Copernicus
  then show ?thesis using assms
    by (auto simp: source_frame_def copernicus_frame_def bind_err_Inr_iff
             dest: dropna_has_coordinates(1))
next
  case Argo
  from assms Argo have r: "r = \<lparr>cols = [''timestamp'', ''latitude'', ''longitude'', ''ocean'',
                 ''prof_type'', ''institution'', ''temperature_celsius''],
          rws = map (\<lambda>r. r @ [Null])
                  (filter (row_complete [Suc 0, 2]) (rws (argo_mapped e t)))\<rparr>"
    by (simp add: source_frame_def argo_frame_eq)
  have "list_all (row_complete [Suc 0, 2]) (rws r)"
    unfolding r by (auto simp: list_all_iff argo_mapped_rows(2))
  moreover have "coord_positions (cols r) = [Suc 0, 2]" unfolding r by (simp only: frame.simps argo_positions)
  ultimately show ?thesis unfolding has_coordinates_def by (simp add: r)
next
  case Ncei
  then show ?thesis using assms
    by (auto simp: source_frame_def ncei_frame_def bind_err_Inr_iff dest: dropna_has_coordinates(1))
qed

lemma survivors_source_frame:
  assumes "mapped_frame e s t = Inr pre"
    and "''latitude'' \<in> set (cols pre)" "''longitude'' \<in> set (cols pre)"
  shows "\<exists>r. source_frame e s t = Inr r
           \<and> rws r = map (persisted_row s)
                       (filter (row_complete (coord_positions (cols pre))) (rws pre))"
proof (cases s)
  case Noaa
  then show ?thesis using assms dropna_coords_ok [OF assms(2,3)]
    by (simp add: source_frame_def mapped_frame_def noaa_frame_def bind_err_def persisted_row_simps)
next
  case Copernicus
  then show ?thesis using assms dropna_coords_ok [OF assms(2,3)]
    by (simp add: source_frame_def mapped_frame_def copernicus_frame_def bind_err_def
          persisted_row_simps)
next
  case Argo
  then have "pre = argo_mapped e t" using assms(1) by (simp add: mapped_frame_def)
  moreover have "coord_positions (cols (argo_mapped e t)) = [Suc 0, 2]"
    by (simp only: argo_mapped_def frame.simps argo_positions)
  ultimately show ?thesis using Argo
    by (simp add: source_frame_def argo_frame_eq persisted_row_simps)
next
  case Ncei
  then show ?thesis using assms dropna_coords_ok [OF assms(2,3)]
    by (simp add: source_frame_def mapped_frame_def ncei_frame_def bind_err_def persisted_row_simps)
qed

lemma within_nonnull: "null_or_within b c \<Longrightarrow> c \<noteq> Null \<Longrightarrow> num_within b c"
  by (cases c) auto

lemma row_complete_mem: "row_complete ps r \<Longrightarrow> i \<in> set ps \<Longrightarrow> cell_at r i \<noteq> Null"
  by (simp add: row_complete_def list_all_iff)

lemma dropna_in_range:
  assumes "dropna [''latitude'', ''longitude''] df = Inr r" "valid_input df"
  shows "coordinates_in_range r"
proof -
  have c: "cols r = cols df"
    and rw: "rws r = filter (row_complete (coord_positions (cols df))) (rws df)"
    using dropna_has_coordinates [OF assms(1)] by auto
  have p: "set (coord_positions (cols df))
      = set (col_positions (cols df) ''latitude'') \<union> set (col_positions (cols df) ''longitude'')"
    by (simp add: coord_positions_def)
  show ?thesis
    using assms(2) unfolding coordinates_in_range_def valid_input_def coordinates_by_def c rw
    by (auto simp: list_all_iff p intro!: within_nonnull dest: row_complete_mem)
qed

lemma argo_col_positions:
  "col_positions [''timestamp'', ''latitude'', ''longitude'', ''ocean'', ''prof_type'',
              ''institution''] ''latitude'' = [Suc 0]"
  "col_positions [''timestamp'', ''latitude'', ''longitude'', ''ocean'', ''prof_type'',
              ''institution''] ''longitude'' = [2]"
  "col_positions [''timestamp'', ''latitude'', ''longitude'', ''ocean'', ''prof_type'',
              ''institution'', ''temperature_celsius''] ''latitude'' = [Suc 0]"
  "col_positions [''timestamp'', ''latitude'', ''longitude'', ''ocean'', ''prof_type'',
              ''institution'', ''temperature_celsius''] ''longitude'' = [2]"
  by (simp_all add: col_positions_def upt_conv_Cons)

lemma in_range_source_frame:
  assumes "mapped_frame e s t = Inr pre" "valid_input pre" "source_frame e s t = Inr r"
  shows "coordinates_in_range r"
proof (cases s)
  case Noaa
  then show ?thesis using assms
    by (auto simp: source_frame_def mapped_frame_def noaa_frame_def bind_err_Inr_iff
             intro: dropna_in_range)
next
  case Copernicus
  then show ?thesis using assms
    by (auto simp: source_frame_def mapped_frame_def copernicus_frame_def bind_err_Inr_iff
             intro: dropna_in_range)
next
  case Argo
  then have pre: "pre = argo_mapped e t" using assms(1) by (simp add: mapped_frame_def)
  have cp: "cols pre = [''timestamp'', ''latitude'', ''longitude'', ''ocean'', ''prof_type'',
              ''institution'']" by (simp add: pre argo_mapped_def)
  from assms(3) Argo have r: "r = \<lparr>cols = [''timestamp'', ''latitude'', ''longitude'', ''ocean'',
                 ''prof_type'', ''institution'', ''temperature_celsius''],
          rws = map (\<lambda>r. r @ [Null])
                  (filter (row_complete [Suc 0, 2]) (rws (argo_mapped e t)))\<rparr>"
    by (simp add: source_frame_def argo_frame_eq)
  have len: "\<And>x. x \<in> set (rws pre) \<Longrightarrow> length x = 6"
    by (auto simp: pre argo_mapped_def length_argo_row)
  have v: "\<And>x. x \<in> set (rws pre) \<Longrightarrow>
      null_or_within 90 (cell_at x (Suc 0)) \<and> null_or_within 180 (cell_at x 2)"
    using assms(2) unfolding valid_input_def coordinates_by_def cp argo_col_positions
    by (simp add: list_all_iff)
  show ?thesis
    unfolding coordinates_in_range_def coordinates_by_def r frame.simps argo_col_positions
    using v len
    by (auto simp: list_all_iff pre [symmetric] cell_at_append row_complete_def
             intro!: within_nonnull)
next
  case Ncei
  then show ?thesis using assms
    by (auto simp: source_frame_def mapped_frame_def ncei_frame_def bind_err_Inr_iff
             intro: dropna_in_range)
qed

lemma process_file_eq:
  "process_file e cfg s f =
     mapping_result (log_name s)
       (then_save (bind_err (table f) (source_frame e s))
          (save_result (max_rows_per_file cfg) (file_name f) (out_dir cfg s) (source_key s)
             (log_name s)))"
  by (cases s)
     (simp_all add: process_file_def process_noaa_file_def process_copernicus_file_def
        process_argo_file_def process_ncei_file_def source_frame_def out_dir_def log_name_def
        source_key_def bind_err_def split: sum.splits)

lemma process_file_cases:
  "(fst (process_file e cfg s f) = [] ) \<or>
   (\<exists>t r evs. table f = Inr t \<and> source_frame e s t = Inr r
      \<and> save_chunked (max_rows_per_file cfg) r (file_name f) (out_dir cfg s) (source_key s)
           = Inr (fst (process_file e cfg s f), evs))"
  unfolding process_file_eq fst_mapping_result
  by (auto simp: bind_err_def then_save_def fst_save_result split: sum.splits)

lemma has_coordinates_subset:
  assumes "has_coordinates r" "cols f = cols r" "set (rws f) \<subseteq> set (rws r)"
  shows "has_coordinates f"
  using assms unfolding has_coordinates_def by (auto simp: list_all_iff)

lemma in_range_subset:
  assumes "coordinates_in_range r" "cols f = cols r" "set (rws f) \<subseteq> set (rws r)"
  shows "coordinates_in_range f"
  using assms unfolding coordinates_in_range_def coordinates_by_def
  by (simp add: list_all_iff subset_iff)

text \<open>
  Every row written by any of the four mappings has its latitude and its longitude: the
  written table has both columns and no row misses a cell under them. Where the mapping
  builds its table without an error, the written coordinates of valid input are numbers
  in \<open>-90..90\<close> and \<open>-180..180\<close>, and the rows written are exactly the rows of the mapped
  table with both coordinates, in their order: a missing cell under another column drops
  no row there.
\<close>

lemma coordinate_survival:
  "(\<forall>f\<in>set (fst (process_file e cfg s rf)). has_coordinates (content f))
   \<and> (table rf = Inr t \<and> mapped_frame e s t = Inr pre \<longrightarrow>
        (valid_input pre \<longrightarrow>
           (\<forall>f\<in>set (fst (process_file e cfg s rf)). coordinates_in_range (content f)))
      \<and> (0 < max_rows_per_file cfg \<and> ''latitude'' \<in> set (cols pre)
            \<and> ''longitude'' \<in> set (cols pre) \<longrightarrow>
           written_rows (fst (process_file e cfg s rf))
             = map (persisted_row s)
                 (filter (row_complete (coord_positions (cols pre))) (rws pre))))"
proof (intro conjI impI ballI)
  fix f assume f: "f \<in> set (fst (process_file e cfg s rf))"
  then obtain t' r evs where "source_frame e s t' = Inr r"
    and sc: "save_chunked (max_rows_per_file cfg) r (file_name rf) (out_dir cfg s) (source_key s)
           = Inr (fst (process_file e cfg s rf), evs)"
    using process_file_cases [of e cfg s rf] by auto
  then show "has_coordinates (content f)"
    using save_chunked_subset [OF sc f] has_coordinates_source_frame has_coordinates_subset
    by blast
next
  fix f
  assume a: "table rf = Inr t \<and> mapped_frame e s t = Inr pre" and v: "valid_input pre"
    and f: "f \<in> set (fst (process_file e cfg s rf))"
  then obtain r evs where r: "source_frame e s t = Inr r"
    and sc: "save_chunked (max_rows_per_file cfg) r (file_name rf) (out_dir cfg s) (source_key s)
           = Inr (fst (process_file e cfg s rf), evs)"
    using process_file_cases [of e cfg s rf] by auto
  have "coordinates_in_range r" using in_range_source_frame a v r by blast
  then show "coordinates_in_range (content f)"
    using save_chunked_subset [OF sc f] in_range_subset by blast
next
  assume a: "table rf = Inr t \<and> mapped_frame e s t = Inr pre"
    and b: "0 < max_rows_per_file cfg \<and> ''latitude'' \<in> set (cols pre)
            \<and> ''longitude'' \<in> set (cols pre)"
  obtain r where r: "source_frame e s t = Inr r"
    and rr: "rws r = map (persisted_row s)
                       (filter (row_complete (coord_positions (cols pre))) (rws pre))"
    using survivors_source_frame a b by blast
  obtain files evs where
    sc: "save_chunked (max_rows_per_file cfg) r (file_name rf) (out_dir cfg s) (source_key s)
           = Inr (files, evs)"
    and c: "concat (map (\<lambda>f. rws (content f)) files) = rws r"
    using save_chunked_total [of "max_rows_per_file cfg" r] b by blast
  have "fst (process_file e cfg s rf) = files"
    using a r sc unfolding process_file_eq fst_mapping_result
    by (simp add: bind_err_def then_save_def fst_save_result)
  then show "written_rows (fst (process_file e cfg s rf))
             = map (persisted_row s)
                 (filter (row_complete (coord_positions (cols pre))) (rws pre))"
    using c rr by (simp add: written_rows_def)
qed


lemma coordinate_survival_argo:
  "table argo_file = Inr argo_table
   \<and> mapped_frame demo_env Argo argo_table = Inr argo_pre
   \<and> valid_input argo_pre
   \<and> 0 < max_rows_per_file demo_config
   \<and> ''latitude'' \<in> set (cols argo_pre) \<and> ''longitude'' \<in> set (cols argo_pre)
   \<and> list_all (\<lambda>f. has_coordinates (content f) \<and> coordinates_in_range (content f))
         (fst (process_file demo_env demo_config Argo argo_file))
   \<and> written_rows (fst (process_file demo_env demo_config Argo argo_file))
       = [[Time 2006 10 22 2 16 24, Num 40, Num (-10), Str ''A'', Num 846, Str ''AO'', Null],
          [Null, Num 41, Num (-11), Str ''A'', Num 846, Str ''AO'', Null]]"
proof -
  have t: "table argo_file = Inr argo_table" by (simp add: argo_file_def)
  have m: "mapped_frame demo_env Argo argo_table = Inr argo_pre" by code_simp
  have v: "valid_input argo_pre" by code_simp
  have b: "0 < max_rows_per_file demo_config" by (simp add: demo_config_def)
  have c: "''latitude'' \<in> set (cols argo_pre)" "''longitude'' \<in> set (cols argo_pre)"
    by (simp_all add: argo_pre_def)
  have k: "map (persisted_row Argo)
             (filter (row_complete (coord_positions (cols argo_pre))) (rws argo_pre))
       = [[Time 2006 10 22 2 16 24, Num 40, Num (-10), Str ''A'', Num 846, Str ''AO'', Null],
          [Null, Num 41, Num (-11), Str ''A'', Num 846, Str ''AO'', Null]]"
    by code_simp
  note cs = coordinate_survival [of demo_env demo_config Argo argo_file argo_table argo_pre]
  have 1: "list_all (\<lambda>f. has_coordinates (content f) \<and> coordinates_in_range (content f))
         (fst (process_file demo_env demo_config Argo argo_file))"
    using cs t m v by (simp add: list_all_iff)
  have 2: "written_rows (fst (process_file demo_env demo_config Argo argo_file))
       = map (persisted_row Argo)
             (filter (row_complete (coord_positions (cols argo_pre))) (rws argo_pre))"
    using cs t m b c by blast
  show ?thesis using t m v b c 1 2 k by simp
qed

text \<open>
  Claim C3 fails in the NCEI mapping. On a station file whose state column is blank in
  every row, every mapped row has a latitude and a longitude, so that each of them
  should be written; but \<open>df['state'].str[:2]\<close> raises on a column without any text, the
  mapping logs the error and returns no file: no row is written.
\<close>

theorem ncei_blank_state_writes_nothing:
  "filter (row_complete [2, 3]) (map (ncei_row demo_env) (rws ncei_blank_table))
     = [[Str ''ACW00011604'', Str ''2024-01-04'', Num 17, Num (-61), Num 10, Null,
         Str ''ST JOHNS''],
        [Str ''AE000041196'', Str ''2024-01-04'', Num 25, Num 55, Num 34, Null,
         Str ''SHARJAH'']]
   \<and> ncei_frame demo_env ncei_blank_table
       = Inl (AttributeError ''Can only use .str accessor with string values'')
   \<and> process_ncei_file demo_env demo_config ncei_blank_file
       = ([], [ev ''NCEI'' ''PROCESSING'' ''STARTED'',
               ev_err ''NCEI'' ''PROCESSING''
                 (AttributeError ''Can only use .str accessor with string values'')])
   \<and> written_rows (fst (process_ncei_file demo_env demo_config ncei_blank_file)) = []"
proof -
  have r: "filter (row_complete [2, 3]) (map (ncei_row demo_env) (rws ncei_blank_table))
     = [[Str ''ACW00011604'', Str ''2024-01-04'', Num 17, Num (-61), Num 10, Null,
         Str ''ST JOHNS''],
        [Str ''AE000041196'', Str ''2024-01-04'', Num 25, Num 55, Num 34, Null,
         Str ''SHARJAH'']]"
    by code_simp
  have m: "ncei_frame demo_env ncei_blank_table
       = Inl (AttributeError ''Can only use .str accessor with string values'')"
    by code_simp
  have p: "process_ncei_file demo_env demo_config ncei_blank_file
       = ([], [ev ''NCEI'' ''PROCESSING'' ''STARTED'',
               ev_err ''NCEI'' ''PROCESSING''
                 (AttributeError ''Can only use .str accessor with string values'')])"
    by (simp add: process_ncei_file_def ncei_blank_file_def bind_err_def then_save_def
          mapping_result_def m)
  show ?thesis using r m p by (simp add: written_rows_def)
qed


section \<open>Failing and unknown files\<close>

lemma noaa_target_required:
  "noaa_target ''timestamp'' \<noteq> None" "noaa_target ''latitude'' \<noteq> None"
  "noaa_target ''longitude'' \<noteq> None"
  by code_simp+

lemma rename_cols_none:
  assumes "\<forall>c\<in>set (cols df). mapping c = None"
  shows "rename_cols mapping df = df"
proof -
  have "map (\<lambda>c. case mapping c of Some c' \<Rightarrow> c' | None \<Rightarrow> c) (cols df) = cols df"
    using assms by (induction "cols df") (auto simp: map_idI)
  then show ?thesis by (simp add: rename_cols_def)
qed

lemma col_positions_set: "i \<in> set (col_positions cs c) \<Longrightarrow> i < length cs \<and> cs ! i = c"
  by (simp add: col_positions_def)

lemma select_cols_names: "set (cols (select_cols df names)) \<subseteq> set names"
  by (auto simp: select_cols_def Let_def dest: col_positions_set)

lemma rename_cols_names:
  "set (cols (rename_cols sst_rename df)) \<subseteq> set (cols df) \<union> {''sst_celsius''}"
  by (auto simp: rename_cols_def sst_rename_def)

lemma noaa_units_names:
  assumes "noaa_units r = Inr r'"
  shows "set (cols r') \<subseteq> set (cols r) \<union> {''sst_celsius''}"
proof (cases "''sea_surface_temperature'' \<in> set (cols r)")
  case False
  then have "r' = r" using assms by (simp add: noaa_units_def)
  then show ?thesis by blast
next
  case True
  then obtain i where i: "col_positions (cols r) ''sea_surface_temperature'' = [i]"
    using assms by (auto simp: noaa_units_def split: list.splits)
  then obtain m where "series_mean (column r i) = Inr m"
     and r': "r' = (if exceeds_200 m then rename_cols sst_rename (map_column i minus_273_15 r) else r)"
    using assms True by (auto simp: noaa_units_def bind_err_Inr_iff split: if_splits)
  have "cols (map_column i minus_273_15 r) = cols r" by (simp add: map_column_def)
  then show ?thesis using r' rename_cols_names [of "map_column i minus_273_15 r"] by auto
qed

lemma noaa_frame_unrecognised:
  assumes "\<forall>c\<in>set (cols df). noaa_target c = None"
  shows "\<exists>err. noaa_frame df = Inl err
          \<and> (''sea_surface_temperature'' \<notin> set (cols df)
               \<longrightarrow> err = ValueError ''No recognizable columns found'')"
proof -
  have rn: "rename_cols noaa_target df = df" using assms by (rule rename_cols_none)
  have no: "''timestamp'' \<notin> set (cols df)" "''latitude'' \<notin> set (cols df)"
    "''longitude'' \<notin> set (cols df)"
    using assms noaa_target_required by auto
  show ?thesis
  proof (cases "''sea_surface_temperature'' \<in> set (cols df)")
    case False
    then have "filter (\<lambda>c. c \<in> set (cols df)) required_cols = []"
      using no by (simp add: required_cols_def)
    then show ?thesis using False
      by (simp add: noaa_frame_def noaa_mapped_def rn bind_err_def)
  next
    case True
    then have av: "filter (\<lambda>c. c \<in> set (cols df)) required_cols = [''sea_surface_temperature'']"
      using no by (simp add: required_cols_def)
    let ?sel = "select_cols df [''sea_surface_temperature'']"
    have m: "noaa_mapped df = noaa_units ?sel"
      by (simp add: noaa_mapped_def rn av)
    show ?thesis
    proof (cases "noaa_units ?sel")
      case (Inl e)
      then show ?thesis using True by (simp add: noaa_frame_def m bind_err_def)
    next
      case (Inr r')
      have "set (cols r') \<subseteq> {''sea_surface_temperature'', ''sst_celsius''}"
        using noaa_units_names [OF Inr] select_cols_names [of df "[''sea_surface_temperature'']"]
        by auto
      then have "\<not> set [''latitude'', ''longitude''] \<subseteq> set (cols r')" by auto
      then obtain c where "dropna [''latitude'', ''longitude''] r' = Inl (KeyError c)"
        using dropna_KeyError by blast
      then show ?thesis using True by (simp add: noaa_frame_def m Inr bind_err_def)
    qed
  qed
qed

lemma process_one_unknown:
  "classify (file_name f) = None \<Longrightarrow>
     process_one e cfg st f =
       st\<lparr>events := events st @ [ev ''PROCESSOR'' ''FILE_PROCESSING'' ''STARTED'',
                                  ev ''PROCESSOR'' ''FILE_PROCESSING'' ''WARNING'']\<rparr>"
  by (simp add: process_one_def)

lemma process_one_known:
  "classify (file_name f) = Some s \<Longrightarrow>
     process_one e cfg st f =
       \<lparr>manifest = extend_key (source_key s) (map path (fst (process_file e cfg s f)))
                     (manifest st),
        written = written st @ fst (process_file e cfg s f),
        events = events st @ ev ''PROCESSOR'' ''FILE_PROCESSING'' ''STARTED''
                   # snd (process_file e cfg s f)\<rparr>"
  by (simp add: process_one_def case_prod_unfold)

lemma process_one_cong:
  assumes "manifest st = manifest st'" "written st = written st'"
  shows "manifest (process_one e cfg st f) = manifest (process_one e cfg st' f)"
    and "written (process_one e cfg st f) = written (process_one e cfg st' f)"
proof -
  show "manifest (process_one e cfg st f) = manifest (process_one e cfg st' f)"
  proof (cases "classify (file_name f)")
    case None then show ?thesis using assms by (simp add: process_one_unknown)
  next
    case (Some s) then show ?thesis using assms by (simp add: process_one_known)
  qed
  show "written (process_one e cfg st f) = written (process_one e cfg st' f)"
  proof (cases "classify (file_name f)")
    case None then show ?thesis using assms by (simp add: process_one_unknown)
  next
    case (Some s) then show ?thesis using assms by (simp add: process_one_known)
  qed
qed

lemma foldl_process_one_cong:
  assumes "manifest st = manifest st'" "written st = written st'"
  shows "manifest (foldl (process_one e cfg) st fs) = manifest (foldl (process_one e cfg) st' fs)
       \<and> written (foldl (process_one e cfg) st fs) = written (foldl (process_one e cfg) st' fs)"
  using assms
proof (induction fs arbitrary: st st')
  case Nil then show ?case by simp
next
  case (Cons f fs)
  show ?case
    using Cons.IH [OF process_one_cong [OF Cons.prems]] by simp
qed

lemma skipped_file:
  assumes "manifest (process_one e cfg st f) = manifest st"
          "written (process_one e cfg st f) = written st"
  shows "manifest (foldl (process_one e cfg) st (f # ys)) = manifest (foldl (process_one e cfg) st ys)
       \<and> written (foldl (process_one e cfg) st (f # ys)) = written (foldl (process_one e cfg) st ys)"
  using foldl_process_one_cong [OF assms, of e cfg ys] by simp

lemma extend_key_nil: "extend_key k [] m = m"
  by (induction m) (auto simp: extend_key_def)

lemma keys_extend_key: "map fst (extend_key k ps m) = map fst m"
  by (induction m) (auto simp: extend_key_def)

lemma keys_process_one: "map fst (manifest (process_one e cfg st f)) = map fst (manifest st)"
  by (cases "classify (file_name f)")
     (simp_all add: process_one_unknown process_one_known keys_extend_key)

lemma keys_foldl: "map fst (manifest (foldl (process_one e cfg) st fs)) = map fst (manifest st)"
  by (induction fs arbitrary: st) (simp_all add: keys_process_one)

lemma process_noaa_file_unrecognised:
  assumes "table rf = Inr df" and "\<forall>c\<in>set (cols df). noaa_target c = None"
  shows "\<exists>err. process_noaa_file cfg rf
             = ([], [ev ''NOAA'' ''PROCESSING'' ''STARTED'', ev_err ''NOAA'' ''PROCESSING'' err])
          \<and> (''sea_surface_temperature'' \<notin> set (cols df)
               \<longrightarrow> err = ValueError ''No recognizable columns found'')"
proof -
  obtain err where e: "noaa_frame df = Inl err"
    and v: "''sea_surface_temperature'' \<notin> set (cols df)
               \<longrightarrow> err = ValueError ''No recognizable columns found''"
    using noaa_frame_unrecognised [OF assms(2)] by blast
  have "process_noaa_file cfg rf
             = ([], [ev ''NOAA'' ''PROCESSING'' ''STARTED'', ev_err ''NOAA'' ''PROCESSING'' err])"
    by (simp add: process_noaa_file_def assms(1) e bind_err_def then_save_def mapping_result_def)
  then show ?thesis using v by blast
qed

text \<open>
  Claim C5. A NOAA file none of whose columns the substring heuristic recognises makes
  the mapping fail: it returns no output file and logs the error (the \<open>ValueError\<close> of
  \<open>process_noaa_file\<close>, unless a column is literally named \<open>sea_surface_temperature\<close>, where
  a later step fails instead). The error stays inside the mapping: \<open>process_all\<close> only gains
  the events and goes on, with the manifest and the files written for the other raw files
  as they are without this file.
\<close>

theorem noaa_unrecognised_columns_skipped:
  assumes "table rf = Inr df" and "\<forall>c\<in>set (cols df). noaa_target c = None"
  shows "\<exists>err.
      process_noaa_file cfg rf
        = ([], [ev ''NOAA'' ''PROCESSING'' ''STARTED'', ev_err ''NOAA'' ''PROCESSING'' err])
    \<and> (''sea_surface_temperature'' \<notin> set (cols df)
         \<longrightarrow> err = ValueError ''No recognizable columns found'')
    \<and> (classify (file_name rf) = Some Noaa \<longrightarrow>
          process_one e cfg st rf
            = st\<lparr>events := events st @
                   [ev ''PROCESSOR'' ''FILE_PROCESSING'' ''STARTED'',
                    ev ''NOAA'' ''PROCESSING'' ''STARTED'', ev_err ''NOAA'' ''PROCESSING'' err]\<rparr>
        \<and> manifest (process_all e cfg (xs @ rf # ys)) = manifest (process_all e cfg (xs @ ys))
        \<and> written (process_all e cfg (xs @ rf # ys)) = written (process_all e cfg (xs @ ys)))"
proof -
  obtain err where p: "process_noaa_file cfg rf
             = ([], [ev ''NOAA'' ''PROCESSING'' ''STARTED'', ev_err ''NOAA'' ''PROCESSING'' err])"
    and v: "''sea_surface_temperature'' \<notin> set (cols df)
               \<longrightarrow> err = ValueError ''No recognizable columns found''"
    using process_noaa_file_unrecognised [OF assms] by blast
  have one: "\<And>st. classify (file_name rf) = Some Noaa \<Longrightarrow>
          process_one e cfg st rf
            = st\<lparr>events := events st @
                   [ev ''PROCESSOR'' ''FILE_PROCESSING'' ''STARTED'',
                    ev ''NOAA'' ''PROCESSING'' ''STARTED'', ev_err ''NOAA'' ''PROCESSING'' err]\<rparr>"
    by (simp add: process_one_known process_file_def p extend_key_nil)
  have rest: "classify (file_name rf) = Some Noaa \<Longrightarrow>
      manifest (process_all e cfg (xs @ rf # ys)) = manifest (process_all e cfg (xs @ ys))
        \<and> written (process_all e cfg (xs @ rf # ys)) = written (process_all e cfg (xs @ ys))"
  proof -
    assume c: "classify (file_name rf) = Some Noaa"
    let ?st = "foldl (process_one e cfg) initial_run xs"
    have "manifest (process_one e cfg ?st rf) = manifest ?st"
         "written (process_one e cfg ?st rf) = written ?st"
      by (simp_all add: one [OF c])
    then show ?thesis using skipped_file [of e cfg ?st rf ys] by (simp add: process_all_def)
  qed
  show ?thesis using p v one rest by blast
qed

text \<open>
  Claim C10. The manifest of \<open>process_all\<close> has exactly the keys noaa, copernicus, argo and
  ncei. A raw file whose lower-cased name has none of the six substrings only logs the
  start and a warning, and the manifest and the files written are those of the run
  without it.
\<close>

theorem unknown_file_ignored:
  "map fst (manifest (process_all e cfg fs)) = [''noaa'', ''copernicus'', ''argo'', ''ncei'']
   \<and> (\<not> contains ''noaa'' (lower (file_name u)) \<and> \<not> contains ''jpl'' (lower (file_name u))
       \<and> \<not> contains ''copernicus'' (lower (file_name u))
       \<and> \<not> contains ''argo'' (lower (file_name u))
       \<and> \<not> contains ''ghcnd'' (lower (file_name u))
       \<and> \<not> contains ''stations'' (lower (file_name u)) \<longrightarrow>
         process_one e cfg st u
           = st\<lparr>events := events st @ [ev ''PROCESSOR'' ''FILE_PROCESSING'' ''STARTED'',
                                      ev ''PROCESSOR'' ''FILE_PROCESSING'' ''WARNING'']\<rparr>
       \<and> manifest (process_all e cfg (xs @ u # ys)) = manifest (process_all e cfg (xs @ ys))
       \<and> written (process_all e cfg (xs @ u # ys)) = written (process_all e cfg (xs @ ys)))"
proof (intro conjI impI)
  show "map fst (manifest (process_all e cfg fs)) = [''noaa'', ''copernicus'', ''argo'', ''ncei'']"
    by (simp add: process_all_def keys_foldl initial_run_def)
next
  assume a: "\<not> contains ''noaa'' (lower (file_name u)) \<and> \<not> contains ''jpl'' (lower (file_name u))
       \<and> \<not> contains ''copernicus'' (lower (file_name u))
       \<and> \<not> contains ''argo'' (lower (file_name u))
       \<and> \<not> contains ''ghcnd'' (lower (file_name u))
       \<and> \<not> contains ''stations'' (lower (file_name u))"
  then have c: "classify (file_name u) = None" by (simp add: classify_def Let_def)
  show "process_one e cfg st u
           = st\<lparr>events := events st @ [ev ''PROCESSOR'' ''FILE_PROCESSING'' ''STARTED'',
                                      ev ''PROCESSOR'' ''FILE_PROCESSING'' ''WARNING'']\<rparr>"
    using c by (rule process_one_unknown)
  let ?st = "foldl (process_one e cfg) initial_run xs"
  have "manifest (process_one e cfg ?st u) = manifest ?st"
       "written (process_one e cfg ?st u) = written ?st"
    by (simp_all add: process_one_unknown [OF c])
  then have r: "manifest (process_all e cfg (xs @ u # ys)) = manifest (process_all e cfg (xs @ ys))
      \<and> written (process_all e cfg (xs @ u # ys)) = written (process_all e cfg (xs @ ys))"
    using skipped_file [of e cfg ?st u ys] by (simp add: process_all_def)
  show "manifest (process_all e cfg (xs @ u # ys)) = manifest (process_all e cfg (xs @ ys))"
    using r by blast
  show "written (process_all e cfg (xs @ u # ys)) = written (process_all e cfg (xs @ ys))"
    using r by blast
qed

theorem noaa_unrecognised_columns_skipped_witness:
  "table junk_noaa_file = Inr junk_frame
   \<and> list_all (\<lambda>c. noaa_target c = None) (cols junk_frame)
   \<and> classify (file_name junk_noaa_file) = Some Noaa
   \<and> process_noaa_file demo_config junk_noaa_file
       = ([], [ev ''NOAA'' ''PROCESSING'' ''STARTED'',
               ev_err ''NOAA'' ''PROCESSING'' (ValueError ''No recognizable columns found'')])
   \<and> manifest (process_all demo_env demo_config ([argo_file] @ junk_noaa_file # [kelvin_noaa_file]))
       = manifest (process_all demo_env demo_config ([argo_file] @ [kelvin_noaa_file]))
   \<and> written (process_all demo_env demo_config ([argo_file] @ junk_noaa_file # [kelvin_noaa_file]))
       = written (process_all demo_env demo_config ([argo_file] @ [kelvin_noaa_file]))"
proof -
  have t: "table junk_noaa_file = Inr junk_frame" by (simp add: junk_noaa_file_def)
  have n: "noaa_target ''a'' = None" "noaa_target ''b'' = None" by code_simp+
  have h: "\<forall>c\<in>set (cols junk_frame). noaa_target c = None" by (simp add: junk_frame_def n)
  have c: "classify (file_name junk_noaa_file) = Some Noaa" by code_simp
  have s: "''sea_surface_temperature'' \<notin> set (cols junk_frame)" by (simp add: junk_frame_def)
  from noaa_unrecognised_columns_skipped [OF t h, of demo_config demo_env initial_run
         "[argo_file]" "[kelvin_noaa_file]"]
  obtain err where
    1: "process_noaa_file demo_config junk_noaa_file
        = ([], [ev ''NOAA'' ''PROCESSING'' ''STARTED'', ev_err ''NOAA'' ''PROCESSING'' err])"
    and 2: "''sea_surface_temperature'' \<notin> set (cols junk_frame)
         \<longrightarrow> err = ValueError ''No recognizable columns found''"
    and 3: "classify (file_name junk_noaa_file) = Some Noaa \<longrightarrow>
        manifest (process_all demo_env demo_config ([argo_file] @ junk_noaa_file # [kelvin_noaa_file]))
          = manifest (process_all demo_env demo_config ([argo_file] @ [kelvin_noaa_file]))
        \<and> written (process_all demo_env demo_config ([argo_file] @ junk_noaa_file # [kelvin_noaa_file]))
          = written (process_all demo_env demo_config ([argo_file] @ [kelvin_noaa_file]))"
    by blast
  have e: "err = ValueError ''No recognizable columns found''" using 2 s by blast
  show ?thesis
    apply (intro conjI)
    using t apply assumption
    using h apply (simp add: list_all_iff)
    using c apply assumption
    using 1 e apply simp
    using 3 c apply blast
    using 3 c apply blast
    done
qed

theorem unknown_file_ignored_witness:
  "\<not> contains ''noaa'' (lower (file_name unknown_file))
   \<and> \<not> contains ''jpl'' (lower (file_name unknown_file))
   \<and> \<not> contains ''copernicus'' (lower (file_name unknown_file))
   \<and> \<not> contains ''argo'' (lower (file_name unknown_file))
   \<and> \<not> contains ''ghcnd'' (lower (file_name unknown_file))
   \<and> \<not> contains ''stations'' (lower (file_name unknown_file))
   \<and> map fst (manifest (process_all demo_env demo_config [argo_file, unknown_file, kelvin_noaa_file]))
       = [''noaa'', ''copernicus'', ''argo'', ''ncei'']
   \<and> process_one demo_env demo_config initial_run unknown_file
       = initial_run\<lparr>events := events initial_run @
            [ev ''PROCESSOR'' ''FILE_PROCESSING'' ''STARTED'',
             ev ''PROCESSOR'' ''FILE_PROCESSING'' ''WARNING'']\<rparr>
   \<and> manifest (process_all demo_env demo_config ([argo_file] @ unknown_file # [kelvin_noaa_file]))
       = manifest (process_all demo_env demo_config ([argo_file] @ [kelvin_noaa_file]))
   \<and> written (process_all demo_env demo_config ([argo_file] @ unknown_file # [kelvin_noaa_file]))
       = written (process_all demo_env demo_config ([argo_file] @ [kelvin_noaa_file]))"
proof -
  have h: "\<not> contains ''noaa'' (lower (file_name unknown_file))
   \<and> \<not> contains ''jpl'' (lower (file_name unknown_file))
   \<and> \<not> contains ''copernicus'' (lower (file_name unknown_file))
   \<and> \<not> contains ''argo'' (lower (file_name unknown_file))
   \<and> \<not> contains ''ghcnd'' (lower (file_name unknown_file))
   \<and> \<not> contains ''stations'' (lower (file_name unknown_file))"
    by code_simp
  note u = unknown_file_ignored [of demo_env demo_config
     "[argo_file, unknown_file, kelvin_noaa_file]" unknown_file initial_run
     "[argo_file]" "[kelvin_noaa_file]"]
  have k: "map fst (manifest (process_all demo_env demo_config
             [argo_file, unknown_file, kelvin_noaa_file]))
       = [''noaa'', ''copernicus'', ''argo'', ''ncei'']"
    using u by (rule conjunct1)
  have r: "process_one demo_env demo_config initial_run unknown_file
       = initial_run\<lparr>events := events initial_run @
            [ev ''PROCESSOR'' ''FILE_PROCESSING'' ''STARTED'',
             ev ''PROCESSOR'' ''FILE_PROCESSING'' ''WARNING'']\<rparr>
   \<and> manifest (process_all demo_env demo_config ([argo_file] @ unknown_file # [kelvin_noaa_file]))
       = manifest (process_all demo_env demo_config ([argo_file] @ [kelvin_noaa_file]))
   \<and> written (process_all demo_env demo_config ([argo_file] @ unknown_file # [kelvin_noaa_file]))
       = written (process_all demo_env demo_config ([argo_file] @ [kelvin_noaa_file]))"
    using conjunct2 [OF u] h by (rule mp)
  show ?thesis using h k r by (intro conjI) blast+
qed


section \<open>The dates of the Argo index\<close>


























text \<open>
  The leading zero of a field is optional in the format, so that a shorter token can
  still match: the format reads thirteen digits as a date with a one-digit second. And
  the second 60 is matched and carried into the next minute.
\<close>

lemma strptime_short_token: "strptime ''2006102202162'' = Some (2006, 10, 22, 2, 16, 2)"
  by code_simp

lemma to_datetime_leap_second:
  "to_datetime (Str ''20061022021660'') = Time 2006 10 22 2 17 0"
  by code_simp





section \<open>Names and boundaries of the parts\<close>

lemma map_fst_enumerate_from: "map fst (enumerate_from i cs) = [i..<i + length cs]"
  by (induction cs arbitrary: i) (auto simp: upt_rec)

lemma map_snd_enumerate_from: "map snd (enumerate_from i cs) = cs"
  by (induction cs arbitrary: i) auto

lemma map_length_split_sizes:
  "sum_list ss \<le> length xs \<Longrightarrow> map length (split_sizes ss xs) = ss"
  by (induction ss arbitrary: xs) auto

lemma digit_char_0: "digit_char 0 = CHR ''0''"
  by code_simp

lemma format_03d_three_digits:
  assumes "i < 1000"
  shows "format_03d i = [digit_char (i div 100), digit_char (i div 10 mod 10), digit_char (i mod 10)]"
proof -
  consider "i < 10" | "10 \<le> i" "i < 100" | "100 \<le> i"
    by linarith
  then show ?thesis
  proof cases
    case 1
    then have "show_nat i = [digit_char i]" by (simp add: show_nat.simps)
    then show ?thesis using 1 by (simp add: format_03d_def digit_char_0 numeral_3_eq_3)
  next
    case 2
    then have a: "i div 10 < 10" by simp
    have "show_nat i = show_nat (i div 10) @ [digit_char (i mod 10)]"
      using 2 by (subst show_nat.simps) simp
    also have "show_nat (i div 10) = [digit_char (i div 10)]"
      using a by (subst show_nat.simps) simp
    finally show ?thesis using 2 by (simp add: format_03d_def digit_char_0)
  next
    case 3
    then have a: "\<not> i div 10 < 10" "i div 10 div 10 < 10" using assms by simp_all
    have d: "i div 10 div 10 = i div 100" by (simp add: div_mult2_eq)
    have "show_nat i = show_nat (i div 10) @ [digit_char (i mod 10)]"
      using 3 by (subst show_nat.simps) simp
    also have "show_nat (i div 10) = show_nat (i div 10 div 10) @ [digit_char (i div 10 mod 10)]"
      using a by (subst show_nat.simps) simp
    also have "show_nat (i div 10 div 10) = [digit_char (i div 100)]"
      using a d by (subst show_nat.simps) simp
    finally show ?thesis by (simp add: format_03d_def)
  qed
qed

lemma num_chunks_ceiling:
  assumes "0 < (b::int)"
  shows "(int n + b - 1) div b = \<lceil>real n / real_of_int b\<rceil>"
  using ceil_div_ceiling [OF assms, of "int n"] by simp

lemma save_chunked_names:
  assumes b: "0 < b" and many: "b < int (length (rws df))"
  defines "k \<equiv> nat \<lceil>real (length (rws df)) / real_of_int b\<rceil>"
  shows "\<exists>files evs.
      save_chunked b df original_file output_dir source_prefix = Inr (files, evs)
    \<and> map path files = map (part_name output_dir source_prefix (stem original_file)) [1..<Suc k]
    \<and> map (\<lambda>f. length (rws (content f))) files
        = replicate (length (rws df) mod k) (length (rws df) div k + 1)
          @ replicate (k - length (rws df) mod k) (length (rws df) div k)"
proof -
  let ?n = "length (rws df)"
  have n0: "0 < ?n" using many b by linarith
  have nc: "(int ?n + b - 1) div b = \<lceil>real ?n / real_of_int b\<rceil>"
    using num_chunks_ceiling [OF b] .
  have "0 < real ?n / real_of_int b" using n0 b by simp
  then have kpos: "0 < \<lceil>real ?n / real_of_int b\<rceil>" by linarith
  then have ik: "int k = \<lceil>real ?n / real_of_int b\<rceil>" and k0: "0 < k"
    by (simp_all add: k_def)
  let ?ss = "replicate (?n mod k) (?n div k + 1) @ replicate (k - ?n mod k) (?n div k)"
  let ?cs = "split_sizes ?ss (rws df)"
  have as: "array_split (rws df) (int k) = Inr ?cs"
    using k0 by (simp add: array_split_def Let_def)
  let ?files = "map (\<lambda>(i, chunk).
                         \<lparr>path = part_name output_dir source_prefix (stem original_file) i,
                          content = \<lparr>cols = cols df, rws = chunk\<rparr>\<rparr>)
                       (enumerate_from 1 ?cs)"
  have sc: "save_chunked b df original_file output_dir source_prefix
         = Inr (?files, ev ''PROCESSOR'' ''SAVE'' ''INFO''
                     # map (\<lambda>c. ev ''PROCESSOR'' ''SAVE'' ''INFO'') ?cs)"
    using many b n0 as nc ik by (simp add: save_chunked_def Let_def)
  have len: "length ?cs = k" using k0 by (simp add: length_split_sizes less_imp_le)
  have "map path ?files
      = map (part_name output_dir source_prefix (stem original_file))
          (map fst (enumerate_from 1 ?cs))"
    by (simp add: case_prod_unfold comp_def)
  then have p: "map path ?files
      = map (part_name output_dir source_prefix (stem original_file)) [1..<Suc k]"
    by (simp only: map_fst_enumerate_from len) simp
  have "map (\<lambda>f. length (rws (content f))) ?files = map length (map snd (enumerate_from 1 ?cs))"
    by (simp add: case_prod_unfold comp_def)
  also have "\<dots> = map length ?cs" by (simp only: map_snd_enumerate_from)
  also have "\<dots> = ?ss"
    by (rule map_length_split_sizes) (simp only: sizes_sum [OF k0] order_refl)
  finally show ?thesis using sc p by blast
qed

lemma files_of_logged:
  "files_of (save_chunked_logged clock entries b df orig dir pre)
     = files_of (save_chunked b df orig dir pre)"
  by (simp add: files_of_def save_chunked_logged_def split: sum.splits prod.splits)

text \<open>
  Claim C8. The files of the writer are a function of the table, the name of the raw
  file, the directory, the prefix and the bound alone: two logged runs, whatever their
  clocks and logs, write the same files. One file is named with the suffix
  \<open>_processed\<close>; otherwise part \<open>i\<close> of \<open>ceil(n / b)\<close>, counted from 1, has the suffix
  \<open>_processed_part\<close> and \<open>i\<close> written with three digits, the first \<open>n mod k\<close> parts hold
  \<open>n div k + 1\<close> rows and the others \<open>n div k\<close>, and the parts in their order are the
  table.
\<close>

theorem save_chunked_deterministic:
  assumes b: "0 < b"
  shows "\<exists>files evs.
      save_chunked b df original_file output_dir source_prefix = Inr (files, evs)
    \<and> (\<forall>clock clock' entries entries'.
          files_of (save_chunked_logged clock entries b df original_file output_dir source_prefix)
            = Inr files
        \<and> files_of (save_chunked_logged clock' entries' b df original_file output_dir source_prefix)
            = Inr files)
    \<and> (length (rws df) = 0 \<longrightarrow> files = [])
    \<and> (0 < length (rws df) \<and> int (length (rws df)) \<le> b \<longrightarrow>
          files = [\<lparr>path = output_dir @ ''/'' @ source_prefix @ ''_'' @ stem original_file
                             @ ''_processed.csv'',
                    content = df\<rparr>])
    \<and> (b < int (length (rws df)) \<longrightarrow>
          (let k = nat \<lceil>real (length (rws df)) / real_of_int b\<rceil> in
           map path files
             = map (\<lambda>i. output_dir @ ''/'' @ source_prefix @ ''_'' @ stem original_file
                          @ ''_processed_part'' @ format_03d i @ ''.csv'') [1..<Suc k]
         \<and> map (\<lambda>f. length (rws (content f))) files
             = replicate (length (rws df) mod k) (length (rws df) div k + 1)
               @ replicate (k - length (rws df) mod k) (length (rws df) div k)))
    \<and> concat (map (\<lambda>f. rws (content f)) files) = rws df
    \<and> (\<forall>i<1000. format_03d i
           = [digit_char (i div 100), digit_char (i div 10 mod 10), digit_char (i mod 10)])"
proof -
  obtain files evs where
    sc: "save_chunked b df original_file output_dir source_prefix = Inr (files, evs)"
    and cc: "concat (map (\<lambda>f. rws (content f)) files) = rws df"
    using save_chunked_total [OF b, of df original_file output_dir source_prefix] by blast
  have lg: "\<forall>clock clock' entries entries'.
          files_of (save_chunked_logged clock entries b df original_file output_dir source_prefix)
            = Inr files
        \<and> files_of (save_chunked_logged clock' entries' b df original_file output_dir source_prefix)
            = Inr files"
    unfolding files_of_logged by (simp add: sc files_of_def)
  have e: "length (rws df) = 0 \<longrightarrow> files = []"
    using sc by (auto simp: save_chunked_def)
  have s: "0 < length (rws df) \<and> int (length (rws df)) \<le> b \<longrightarrow>
          files = [\<lparr>path = output_dir @ ''/'' @ source_prefix @ ''_'' @ stem original_file
                             @ ''_processed.csv'',
                    content = df\<rparr>]"
    using sc by (auto simp: save_chunked_def Let_def single_name_def)
  have m: "b < int (length (rws df)) \<longrightarrow>
          (let k = nat \<lceil>real (length (rws df)) / real_of_int b\<rceil> in
           map path files
             = map (\<lambda>i. output_dir @ ''/'' @ source_prefix @ ''_'' @ stem original_file
                          @ ''_processed_part'' @ format_03d i @ ''.csv'') [1..<Suc k]
         \<and> map (\<lambda>f. length (rws (content f))) files
             = replicate (length (rws df) mod k) (length (rws df) div k + 1)
               @ replicate (k - length (rws df) mod k) (length (rws df) div k))"
  proof
    assume many: "b < int (length (rws df))"
    have pn: "part_name output_dir source_prefix (stem original_file)
        = (\<lambda>i. output_dir @ ''/'' @ source_prefix @ ''_'' @ stem original_file
                          @ ''_processed_part'' @ format_03d i @ ''.csv'')"
      by (simp add: fun_eq_iff part_name_def)
    show "let k = nat \<lceil>real (length (rws df)) / real_of_int b\<rceil> in
           map path files
             = map (\<lambda>i. output_dir @ ''/'' @ source_prefix @ ''_'' @ stem original_file
                          @ ''_processed_part'' @ format_03d i @ ''.csv'') [1..<Suc k]
         \<and> map (\<lambda>f. length (rws (content f))) files
             = replicate (length (rws df) mod k) (length (rws df) div k + 1)
               @ replicate (k - length (rws df) mod k) (length (rws df) div k)"
      using save_chunked_names [OF b many, of original_file output_dir source_prefix] sc
      unfolding Let_def pn by auto
  qed
  have f: "\<forall>i<1000. format_03d i
           = [digit_char (i div 100), digit_char (i div 10 mod 10), digit_char (i mod 10)]"
    using format_03d_three_digits by blast
  show ?thesis using sc lg e s m cc f by blast
qed


theorem save_chunked_deterministic_witness:
  "(0::int) < 2 \<and> (2::int) < int (length (rws demo_frame))
   \<and> (\<exists>files evs.
        save_chunked 2 demo_frame ''noaa_sst.csv'' ''out'' ''noaa'' = Inr (files, evs)
      \<and> files_of (save_chunked_logged (\<lambda>n. ''2024-01-04T10:00:00'') [] 2 demo_frame
                     ''noaa_sst.csv'' ''out'' ''noaa'') = Inr files
      \<and> files_of (save_chunked_logged (\<lambda>n. ''2031-07-09T23:59:59'')
                     [(''2031-07-09T23:59:58'', ev ''SYSTEM'' ''INITIALIZATION'' ''STARTED'')]
                     2 demo_frame ''noaa_sst.csv'' ''out'' ''noaa'') = Inr files
      \<and> map path files = [''out/noaa_noaa_sst_processed_part001.csv'',
                            ''out/noaa_noaa_sst_processed_part002.csv'',
                            ''out/noaa_noaa_sst_processed_part003.csv'']
      \<and> map (\<lambda>f. length (rws (content f))) files = [2, 2, 1])
   \<and> format_03d 7 = ''007''"
proof -
  have h: "(0::int) < 2" by simp
  have n: "(2::int) < int (length (rws demo_frame))" by (simp add: demo_frame_def)
  have k: "nat \<lceil>real (length (rws demo_frame)) / real_of_int 2\<rceil> = 3"
    by (simp add: demo_frame_def)
  have l: "length (rws demo_frame) = 5" by (simp add: demo_frame_def)
  have st: "stem ''noaa_sst.csv'' = ''noaa_sst''" by code_simp
  have fm: "format_03d (Suc 0) = ''001''" "format_03d 2 = ''002''" "format_03d 3 = ''003''"
    by code_simp+
  have r: "replicate (5 mod 3) (5 div 3 + 1) @ replicate (3 - 5 mod 3) (5 div 3) = [2, 2, 1::nat]"
    by code_simp
  have u: "[1..<Suc 3] = [1, 2, 3]" by code_simp
  from save_chunked_deterministic [OF h, of demo_frame "''noaa_sst.csv''" "''out''" "''noaa''"]
  obtain files evs where
    1: "save_chunked 2 demo_frame ''noaa_sst.csv'' ''out'' ''noaa'' = Inr (files, evs)"
    and 2: "\<forall>clock clock' entries entries'.
          files_of (save_chunked_logged clock entries 2 demo_frame ''noaa_sst.csv'' ''out'' ''noaa'')
            = Inr files
        \<and> files_of (save_chunked_logged clock' entries' 2 demo_frame ''noaa_sst.csv'' ''out'' ''noaa'')
            = Inr files"
    and 3: "2 < int (length (rws demo_frame)) \<longrightarrow>
          (let k = nat \<lceil>real (length (rws demo_frame)) / real_of_int 2\<rceil> in
           map path files
             = map (\<lambda>i. ''out'' @ ''/'' @ ''noaa'' @ ''_'' @ stem ''noaa_sst.csv''
                          @ ''_processed_part'' @ format_03d i @ ''.csv'') [1..<Suc k]
         \<and> map (\<lambda>f. length (rws (content f))) files
             = replicate (length (rws demo_frame) mod k) (length (rws demo_frame) div k + 1)
               @ replicate (k - length (rws demo_frame) mod k) (length (rws demo_frame) div k))"
    and 4: "\<forall>i<1000. format_03d i
           = [digit_char (i div 100), digit_char (i div 10 mod 10), digit_char (i mod 10)]"
    by blast
  have p: "map path files = [''out/noaa_noaa_sst_processed_part001.csv'',
                            ''out/noaa_noaa_sst_processed_part002.csv'',
                            ''out/noaa_noaa_sst_processed_part003.csv'']"
    using 3 n unfolding Let_def k u st by (simp add: fm)
  have k': "nat \<lceil>real (5::nat) / real_of_int 2\<rceil> = 3" by simp
  have s: "map (\<lambda>f. length (rws (content f))) files = [2, 2, 1]"
    using 3 n unfolding Let_def l k' r by blast
  have 7: "format_03d 7 = ''007''"
  proof -
    have "format_03d 7 = [digit_char (7 div 100), digit_char (7 div 10 mod 10), digit_char (7 mod 10)]"
      using 4 by simp
    also have "\<dots> = ''007''" by code_simp
    finally show ?thesis .
  qed
  have a: "files_of (save_chunked_logged (\<lambda>n. ''2024-01-04T10:00:00'') [] 2 demo_frame
                     ''noaa_sst.csv'' ''out'' ''noaa'') = Inr files"
    using 2 by (elim allE conjE)
  have b: "files_of (save_chunked_logged (\<lambda>n. ''2031-07-09T23:59:59'')
                     [(''2031-07-09T23:59:58'', ev ''SYSTEM'' ''INITIALIZATION'' ''STARTED'')]
                     2 demo_frame ''noaa_sst.csv'' ''out'' ''noaa'') = Inr files"
    using 2 by (elim allE conjE)
  have "\<exists>files evs.
        save_chunked 2 demo_frame ''noaa_sst.csv'' ''out'' ''noaa'' = Inr (files, evs)
      \<and> files_of (save_chunked_logged (\<lambda>n. ''2024-01-04T10:00:00'') [] 2 demo_frame
                     ''noaa_sst.csv'' ''out'' ''noaa'') = Inr files
      \<and> files_of (save_chunked_logged (\<lambda>n. ''2031-07-09T23:59:59'')
                     [(''2031-07-09T23:59:58'', ev ''SYSTEM'' ''INITIALIZATION'' ''STARTED'')]
                     2 demo_frame ''noaa_sst.csv'' ''out'' ''noaa'') = Inr files
      \<and> map path files = [''out/noaa_noaa_sst_processed_part001.csv'',
                            ''out/noaa_noaa_sst_processed_part002.csv'',
                            ''out/noaa_noaa_sst_processed_part003.csv'']
      \<and> map (\<lambda>f. length (rws (content f))) files = [2, 2, 1]"
    using 1 a b p s by (intro exI conjI)
  then show ?thesis using h n 7 by (intro conjI)
qed

end
